theory Spec2Isabelle
  imports Main "HOL-Library.List_Lexorder" "HOL-Library.Multiset"
begin

section \<open>Strings\<close>

text \<open>
  A Python \<open>str\<close> is a sequence of Unicode code points. A code point is a natural
  number, a string a list of them, compared lexicographically by code point as Python
  compares strings (the list order of \<open>List_Lexorder\<close>).
\<close>

type_synonym pychar = nat
type_synonym pystr = "pychar list"

definition lit :: "string \<Rightarrow> pystr" where
  \<comment> \<open>an ASCII literal of the source as a Python string\<close>
  "lit s = map (of_char :: char \<Rightarrow> nat) s"

definition isspace :: "pychar \<Rightarrow> bool" where
  \<comment> \<open>the whitespace code points of CPython, the ones \<open>str.strip()\<close> removes\<close>
  "isspace c \<longleftrightarrow>
     (9 \<le> c \<and> c \<le> 13) \<or> (28 \<le> c \<and> c \<le> 32) \<or> c = 133 \<or> c = 160 \<or> c = 5760 \<or>
     (8192 \<le> c \<and> c \<le> 8202) \<or> c = 8232 \<or> c = 8233 \<or> c = 8239 \<or> c = 8287 \<or> c = 12288"

definition strip :: "pystr \<Rightarrow> pystr" where
  \<comment> \<open>\<open>text.strip()\<close>: leading and trailing whitespace removed\<close>
  "strip s = rev (dropWhile isspace (rev (dropWhile isspace s)))"

definition ascii_isalnum :: "pychar \<Rightarrow> bool" where
  \<comment> \<open>\<open>str.isalnum\<close> on the ASCII code points; used to run the model on ASCII inputs\<close>
  "ascii_isalnum c \<longleftrightarrow> (48 \<le> c \<and> c \<le> 57) \<or> (65 \<le> c \<and> c \<le> 90) \<or> (97 \<le> c \<and> c \<le> 122)"

definition ascii_lower :: "pystr \<Rightarrow> pystr" where
  \<comment> \<open>\<open>str.lower\<close> on ASCII strings\<close>
  "ascii_lower s = map (\<lambda>c. if 65 \<le> c \<and> c \<le> 90 then c + 32 else c) s"

section \<open>Sanitising names: \<open>safe_name\<close>\<close>

text \<open>
  \<open>ch.isalnum()\<close> is decided by the Unicode character database; the model takes it
  as the parameter \<open>isalnum\<close>, so every result below holds for the real table.
\<close>

definition allowed :: "(pychar \<Rightarrow> bool) \<Rightarrow> pychar \<Rightarrow> bool" where
  \<comment> \<open>\<open>ch.isalnum() or ch in ("_", ".", " ")\<close>\<close>
  "allowed isalnum ch \<longleftrightarrow> isalnum ch \<or> ch = 95 \<or> ch = 46 \<or> ch = 32"

fun sanitize_chars :: "(pychar \<Rightarrow> bool) \<Rightarrow> pystr \<Rightarrow> pystr \<Rightarrow> pystr" where
  \<comment> \<open>the loop \<open>for ch in text\<close>, appending to \<open>out\<close>\<close>
  "sanitize_chars isalnum [] out = out"
| "sanitize_chars isalnum (ch # text) out =
     (if allowed isalnum ch then sanitize_chars isalnum text (out @ [ch])
      else sanitize_chars isalnum text (out @ [95]))"

fun has_double_space :: "pystr \<Rightarrow> bool" where
  \<comment> \<open>\<open>"  " in safe\<close>\<close>
  "has_double_space (a # b # s) = ((a = 32 \<and> b = 32) \<or> has_double_space (b # s))"
| "has_double_space s = False"

fun replace_double_space :: "pystr \<Rightarrow> pystr" where
  \<comment> \<open>\<open>safe.replace("  ", " ")\<close>: the non-overlapping occurrences, left to right\<close>
  "replace_double_space (a # b # s) =
     (if a = 32 \<and> b = 32 then 32 # replace_double_space s
      else a # replace_double_space (b # s))"
| "replace_double_space s = s"

lemma length_replace_double_space_le:
  "length (replace_double_space s) \<le> length s"
  by (induction s rule: replace_double_space.induct) auto

lemma length_replace_double_space_less:
  "has_double_space s \<Longrightarrow> length (replace_double_space s) < length s"
proof (induction s rule: replace_double_space.induct)
  case (1 a b s)
  show ?case
  proof (cases "a = 32 \<and> b = 32")
    case True
    then show ?thesis
      using length_replace_double_space_le [of s] by simp
  next
    case False
    with 1 show ?thesis by auto
  qed
qed simp_all

function collapse_spaces :: "pystr \<Rightarrow> pystr" where
  \<comment> \<open>\<open>while "  " in safe: safe = safe.replace("  ", " ")\<close>\<close>
  "collapse_spaces safe =
     (if has_double_space safe then collapse_spaces (replace_double_space safe) else safe)"
  by pat_completeness auto
termination
  by (relation "measure length") (auto simp: length_replace_double_space_less)

declare collapse_spaces.simps [simp del]

definition safe_name :: "(pychar \<Rightarrow> bool) \<Rightarrow> pystr \<Rightarrow> pystr" where
  "safe_name isalnum text0 =
     (let text = strip (if text0 = [] then [] else text0) in
      if text = [] then lit ''dataset''
      else collapse_spaces (strip (sanitize_chars isalnum text [])))"

definition all_disallowed :: "(pychar \<Rightarrow> bool) \<Rightarrow> pystr \<Rightarrow> bool" where
  "all_disallowed isalnum s = list_all (\<lambda>c. \<not> allowed isalnum c) s"

definition all_underscores :: "pystr \<Rightarrow> bool" where
  "all_underscores s = list_all (\<lambda>c. c = 95) s"


section \<open>Numbers in text\<close>

fun digits :: "nat \<Rightarrow> pystr" where
  \<comment> \<open>\<open>str(n)\<close> for a non-negative integer\<close>
  "digits n = (if n < 10 then [48 + n] else digits (n div 10) @ [48 + n mod 10])"

declare digits.simps [simp del]

definition str_of_int :: "int \<Rightarrow> pystr" where
  \<comment> \<open>\<open>str(i)\<close>, as an f-string prints an integer\<close>
  "str_of_int i = (if i < 0 then 45 # digits (nat (- i)) else digits (nat i))"

definition format_06d :: "nat \<Rightarrow> pystr" where
  \<comment> \<open>\<open>f"{n:06d}"\<close>: padded with zeros on the left to at least six digits\<close>
  "format_06d n = replicate (6 - length (digits n)) 48 @ digits n"

fun join :: "pystr \<Rightarrow> pystr list \<Rightarrow> pystr" where
  \<comment> \<open>\<open>sep.join(xs)\<close>\<close>
  "join sep [] = []"
| "join sep [x] = x"
| "join sep (x # y # ys) = x @ sep @ join sep (y # ys)"

section \<open>Paths\<close>

text \<open>
  Every path the program handles descends from a resolved directory, so it is an absolute
  POSIX path. \<open>pathlib\<close> keeps a path as its parts; the model keeps the components
  below the root \<open>/\<close>, the root itself being the empty list. Paths are compared as
  \<open>pathlib\<close> compares them: part by part, each part as a string.
\<close>

type_synonym path = "pystr list"

definition str_of_path :: "path \<Rightarrow> pystr" where
  \<comment> \<open>\<open>str(p)\<close>\<close>
  "str_of_path p = (if p = [] then [47] else concat (map (\<lambda>c. 47 # c) p))"

definition parent :: "path \<Rightarrow> path" where
  \<comment> \<open>\<open>p.parent\<close>; the root is its own parent\<close>
  "parent p = butlast p"

definition name :: "path \<Rightarrow> pystr" where
  \<comment> \<open>\<open>p.name\<close>; empty for the root\<close>
  "name p = (if p = [] then [] else last p)"

fun rfind :: "pychar \<Rightarrow> pystr \<Rightarrow> nat option" where
  \<comment> \<open>\<open>s.rfind(c)\<close>, with \<open>None\<close> for Python's \<open>-1\<close>\<close>
  "rfind c [] = None"
| "rfind c (x # xs) =
     (case rfind c xs of Some i \<Rightarrow> Some (Suc i)
      | None \<Rightarrow> if x = c then Some 0 else None)"

definition suffix :: "path \<Rightarrow> pystr" where
  \<comment> \<open>\<open>p.suffix\<close>: from the last dot of the name, unless that dot is first or last
      (as \<open>pathlib\<close> defines it up to Python 3.13)\<close>
  "suffix p =
     (case rfind 46 (name p) of
        None \<Rightarrow> []
      | Some i \<Rightarrow> if 0 < i \<and> i + 1 < length (name p) then drop i (name p) else [])"

fun split_sep :: "pychar \<Rightarrow> pystr \<Rightarrow> pystr list" where
  \<comment> \<open>\<open>s.split(c)\<close>\<close>
  "split_sep c [] = [[]]"
| "split_sep c (x # xs) =
     (if x = c then [] # split_sep c xs
      else (case split_sep c xs of w # ws \<Rightarrow> (x # w) # ws | [] \<Rightarrow> [[x]]))"

definition components :: "pystr \<Rightarrow> path" where
  \<comment> \<open>the parts of a path segment: empty parts and \<open>.\<close> are dropped\<close>
  "components seg = filter (\<lambda>c. c \<noteq> [] \<and> c \<noteq> [46]) (split_sep 47 seg)"

definition joinpath :: "path \<Rightarrow> pystr \<Rightarrow> path" where
  \<comment> \<open>\<open>base / seg\<close>: an absolute segment replaces the base (a segment that starts with
      exactly two slashes, which POSIX keeps apart, is read as starting with one)\<close>
  "joinpath base seg =
     (if seg \<noteq> [] \<and> hd seg = 47 then components seg else base @ components seg)"

datatype exn = SystemExit pystr | ValueError

definition with_suffix :: "path \<Rightarrow> pystr \<Rightarrow> exn + path" where
  \<comment> \<open>\<open>p.with_suffix(sfx)\<close>, for the suffixes \<open>".zip"\<close> and \<open>""\<close> the program passes\<close>
  "with_suffix p sfx =
     (if name p = [] then Inl ValueError
      else Inr (butlast p @
             [(if suffix p = [] then name p
               else take (length (name p) - length (suffix p)) (name p)) @ sfx]))"

section \<open>The environment, the arguments and the effects\<close>

text \<open>
  What the program learns from the world is a parameter of the model: the record
  \<open>env\<close> holds the answer to every question the program asks of the file system,
  the search path, the clock, the converter and the Unicode tables. What the program does
  to the world is the list of its effects, in order.
\<close>

datatype proc_result = Completed | CalledProcessError "pystr option"
  \<comment> \<open>exit status 0, or a non-zero status with the captured standard error (decoded)\<close>

record env =
  expanduser_resolve :: "pystr \<Rightarrow> path"  \<comment> \<open>\<open>Path(s).expanduser().resolve()\<close>\<close>
  path_resolve :: "path \<Rightarrow> path"  \<comment> \<open>\<open>p.resolve()\<close>\<close>
  home_resolved :: "path option"  \<comment> \<open>\<open>Path.home().resolve()\<close>, \<open>None\<close> when it raises\<close>
  path_exists :: "path \<Rightarrow> bool"
  path_is_dir :: "path \<Rightarrow> bool"
  path_is_file :: "path \<Rightarrow> bool"
  path_rglob :: "path \<Rightarrow> path list"  \<comment> \<open>\<open>root.rglob("*")\<close>, in the order the system yields\<close>
  shutil_which :: "pystr \<Rightarrow> pystr option"
  time_strftime :: pystr  \<comment> \<open>\<open>time.strftime("%Y%m%d_%H%M%S")\<close>\<close>
  subprocess_run :: "pystr list \<Rightarrow> proc_result"
  str_isalnum :: "pychar \<Rightarrow> bool"
  str_lower :: "pystr \<Rightarrow> pystr"

record args =
  arg_path :: pystr
  arg_out :: pystr
  arg_style :: "pystr option"
  arg_quality :: int
  arg_max_long_edge :: "int option"
  arg_zip :: bool
  arg_job_name :: "pystr option"
  arg_dry_run :: bool

record payload =
  pl_tool :: pystr
  pl_version :: pystr
  pl_dataset_dir :: pystr
  pl_job_dir :: pystr
  pl_images_dir :: pystr
  pl_inputs_found :: nat
  pl_outputs_written :: nat
  pl_darktable_style :: "pystr option"
  pl_jpg_quality :: int
  pl_max_long_edge :: "int option"
  pl_created_at :: pystr
  pl_notes :: pystr

datatype content = Text pystr | JsonDump payload
  \<comment> \<open>\<open>JsonDump p\<close> stands for the text \<open>json.dumps(p, indent=2)\<close>\<close>

datatype event =
    Which pystr  \<comment> \<open>\<open>shutil.which(tool)\<close>\<close>
  | Rglob path  \<comment> \<open>the recursive walk of \<open>iter_dngs\<close>\<close>
  | Eprint pystr
  | Mkdir path  \<comment> \<open>\<open>ensure_dir\<close>\<close>
  | Run "pystr list"  \<comment> \<open>one converter process\<close>
  | WriteText path content
  | Unlink path
  | MakeArchive pystr pystr  \<comment> \<open>\<open>shutil.make_archive(base_name, "zip", root_dir)\<close>\<close>

section \<open>Small helpers\<close>

definition which_or_die :: "env \<Rightarrow> pystr \<Rightarrow> exn + pystr" where
  "which_or_die E tool =
     (case shutil_which E tool of
        Some found \<Rightarrow>
          if found \<noteq> [] then Inr found
          else Inl (SystemExit (lit ''Missing required tool: '' @ tool @ [10] @
                 lit ''Install darktable (for darktable-cli) and ensure it is on PATH.'' @ [10] @
                 lit ''macOS: brew install darktable''))
      | None \<Rightarrow>
          Inl (SystemExit (lit ''Missing required tool: '' @ tool @ [10] @
                 lit ''Install darktable (for darktable-cli) and ensure it is on PATH.'' @ [10] @
                 lit ''macOS: brew install darktable'')))"

definition dangerous :: "path set" where
  "dangerous = {[], [lit ''System''], [lit ''Library''], [lit ''Applications''], [lit ''Users'']}"

definition is_dangerous_directory :: "env \<Rightarrow> path \<Rightarrow> bool" where
  "is_dangerous_directory E pth =
     (let p = path_resolve E pth in
      if p \<in> dangerous then True
      else (case home_resolved E of
              Some h \<Rightarrow> if p = h then True else False
            | None \<Rightarrow> False))"

section \<open>File discovery and grouping\<close>

definition DNG_EXTS :: "pystr set" where
  "DNG_EXTS = {lit ''.dng''}"

definition iter_dngs :: "env \<Rightarrow> path \<Rightarrow> path list" where
  "iter_dngs E root =
     sort (filter (\<lambda>p. path_is_file E p \<and> str_lower E (suffix p) \<in> DNG_EXTS) (path_rglob E root))"

fun setdefault_append :: "(path \<times> path list) list \<Rightarrow> path \<Rightarrow> path \<Rightarrow> (path \<times> path list) list" where
  \<comment> \<open>\<open>groups.setdefault(k, []).append(p)\<close> on a dict, which keeps insertion order\<close>
  "setdefault_append [] k p = [(k, [p])]"
| "setdefault_append ((k', files) # groups) k p =
     (if k' = k then (k', files @ [p]) # groups
      else (k', files) # setdefault_append groups k p)"

definition group_by_parent_dir :: "path list \<Rightarrow> (path \<times> path list) list" where
  "group_by_parent_dir dngs =
     (let groups = foldl (\<lambda>g p. setdefault_append g (parent p) p) [] dngs;
          grouped = sort_key (\<lambda>kv. str_of_path (fst kv)) groups
      in map (\<lambda>(parent_dir, files). (parent_dir, sort files)) grouped)"

definition default_job_name :: "env \<Rightarrow> path \<Rightarrow> pystr" where
  "default_job_name E dataset_dir = safe_name (str_isalnum E) (name dataset_dir)"


section \<open>The converter\<close>

definition darktable_cmd ::
  "pystr \<Rightarrow> path \<Rightarrow> path \<Rightarrow> pystr option \<Rightarrow> int \<Rightarrow> int option \<Rightarrow> pystr list" where
  \<comment> \<open>the argument list \<open>cmd\<close> that \<open>run_darktable_export\<close> builds\<close>
  "darktable_cmd darktable_cli input_file output_file style jpg_quality max_long_edge =
     (let cmd = [darktable_cli, str_of_path input_file, str_of_path output_file];
          cmd_style = (case style of
                         Some s \<Rightarrow> if s \<noteq> [] then cmd @ [lit ''--style'', s] else cmd
                       | None \<Rightarrow> cmd);
          conf_quality = [lit ''plugins/imageio/format/jpeg/quality='' @ str_of_int jpg_quality];
          conf_items = (case max_long_edge of
                          Some m \<Rightarrow>
                            if m \<noteq> 0
                            then conf_quality @
                              [lit ''plugins/imageio/format/jpeg/width='' @ str_of_int m,
                               lit ''plugins/imageio/format/jpeg/height='' @ str_of_int m]
                            else conf_quality
                        | None \<Rightarrow> conf_quality)
      in cmd_style @ concat (map (\<lambda>item. [lit ''--conf'', item]) conf_items))"

definition run_darktable_export ::
  "env \<Rightarrow> pystr \<Rightarrow> path \<Rightarrow> path \<Rightarrow> pystr option \<Rightarrow> int \<Rightarrow> int option \<Rightarrow> proc_result" where
  \<comment> \<open>\<open>subprocess.run(cmd, check=True, ...)\<close>\<close>
  "run_darktable_export E darktable_cli input_file output_file style jpg_quality max_long_edge =
     subprocess_run E (darktable_cmd darktable_cli input_file output_file style jpg_quality max_long_edge)"

section \<open>The export loop of \<open>main\<close>\<close>

record loop_state =
  export_index :: nat
  exported :: "path list"
  events :: "event list"

definition stderr_text :: "pystr option \<Rightarrow> pystr" where
  \<comment> \<open>\<open>ex.stderr.decode("utf-8", errors="replace") if ex.stderr else ""\<close>\<close>
  "stderr_text err = (case err of Some e \<Rightarrow> e | None \<Rightarrow> [])"

fun export_loop_files ::
  "env \<Rightarrow> args \<Rightarrow> pystr \<Rightarrow> path \<Rightarrow> pystr \<Rightarrow> path list \<Rightarrow> loop_state \<Rightarrow> loop_state \<times> exn option" where
  \<comment> \<open>the inner loop \<open>for f in files\<close>; \<open>Some\<close> is the exception that ends the run\<close>
  "export_loop_files E A darktable_cli images_dir seq_name [] st = (st, None)"
| "export_loop_files E A darktable_cli images_dir seq_name (f # files) st =
     (let idx = export_index st + 1;
          out_name = seq_name @ lit ''_'' @ format_06d idx @ lit ''.jpg'';
          out_path = joinpath images_dir out_name;
          st1 = st\<lparr>export_index := idx,
                   events := events st @
                     [Run (darktable_cmd darktable_cli f out_path
                             (arg_style A) (arg_quality A) (arg_max_long_edge A))]\<rparr>
      in case run_darktable_export E darktable_cli f out_path
                (arg_style A) (arg_quality A) (arg_max_long_edge A) of
           CalledProcessError err \<Rightarrow>
             (st1, Some (SystemExit (lit ''darktable-cli failed on: '' @ str_of_path f @ [10] @
                                     stderr_text err)))
         | Completed \<Rightarrow>
             (let st2 = st1\<lparr>exported := exported st1 @ [out_path]\<rparr>;
                  st3 = (if idx mod 50 = 0
                         then st2\<lparr>events := events st2 @
                                [Eprint (lit ''Exported '' @ digits idx @ lit '' images...'')]\<rparr>
                         else st2)
              in export_loop_files E A darktable_cli images_dir seq_name files st3))"

fun export_loop_groups ::
  "env \<Rightarrow> args \<Rightarrow> pystr \<Rightarrow> path \<Rightarrow> (path \<times> path list) list \<Rightarrow> loop_state \<Rightarrow> loop_state \<times> exn option" where
  \<comment> \<open>the outer loop \<open>for parent_dir, files in groups\<close>\<close>
  "export_loop_groups E A darktable_cli images_dir [] st = (st, None)"
| "export_loop_groups E A darktable_cli images_dir ((parent_dir, files) # groups) st =
     (case export_loop_files E A darktable_cli images_dir
             (safe_name (str_isalnum E) (name parent_dir)) files st of
        (st', Some ex) \<Rightarrow> (st', Some ex)
      | (st', None) \<Rightarrow> export_loop_groups E A darktable_cli images_dir groups st')"

section \<open>Job metadata and packaging\<close>

definition write_job_json :: "path \<Rightarrow> payload \<Rightarrow> event" where
  "write_job_json job_dir pl = WriteText (joinpath job_dir (lit ''job.json'')) (JsonDump pl)"

definition write_manifest :: "path \<Rightarrow> path list \<Rightarrow> event" where
  "write_manifest job_dir image_paths =
     WriteText (joinpath job_dir (lit ''manifest.txt''))
       (Text (join [10] (map str_of_path image_paths) @ [10]))"

definition zip_job :: "env \<Rightarrow> path \<Rightarrow> path \<Rightarrow> event list \<times> (exn + path)" where
  "zip_job E job_dir zip_path0 =
     (case (if str_lower E (suffix zip_path0) \<noteq> lit ''.zip''
            then with_suffix zip_path0 (lit ''.zip'') else Inr zip_path0) of
        Inl ex \<Rightarrow> ([], Inl ex)
      | Inr zip_path \<Rightarrow>
          (let unlinked = (if path_exists E zip_path then [Unlink zip_path] else [])
           in case with_suffix zip_path [] of
                Inl ex \<Rightarrow> (unlinked, Inl ex)
              | Inr base \<Rightarrow>
                  (unlinked @ [MakeArchive (str_of_path base) (str_of_path job_dir)],
                   Inr (components (str_of_path base @ lit ''.zip'')))))"

section \<open>The entry point\<close>

definition announce ::
  "args \<Rightarrow> path \<Rightarrow> path list \<Rightarrow> (path \<times> path list) list \<Rightarrow> path \<Rightarrow> path \<Rightarrow> event list" where
  \<comment> \<open>the block of \<open>eprint\<close> calls before the dry-run test\<close>
  "announce A dataset_dir dngs groups job_dir images_dir =
     [Eprint (lit ''Dataset: '' @ str_of_path dataset_dir),
      Eprint (lit ''DNG files found: '' @ digits (length dngs)),
      Eprint (lit ''Sequence folders found: '' @ digits (length groups)),
      Eprint (lit ''Job dir: '' @ str_of_path job_dir),
      Eprint (lit ''Images dir: '' @ str_of_path images_dir),
      Eprint (lit ''JPEG quality: '' @ str_of_int (arg_quality A))] @
     (case arg_style A of
        Some s \<Rightarrow> if s \<noteq> [] then [Eprint (lit ''Darktable style: '' @ s)] else []
      | None \<Rightarrow> []) @
     (case arg_max_long_edge A of
        Some m \<Rightarrow> if m \<noteq> 0
                  then [Eprint (lit ''Max long edge: '' @ str_of_int m @ lit ''px (best effort)'')]
                  else []
      | None \<Rightarrow> []) @
     (if arg_zip A then [Eprint (lit ''ZIP output: enabled'')] else [])"

definition main_job ::
  "env \<Rightarrow> args \<Rightarrow> pystr \<Rightarrow> path \<Rightarrow> path list \<Rightarrow> (path \<times> path list) list \<Rightarrow> pystr \<Rightarrow> pystr \<Rightarrow>
   path \<Rightarrow> path \<Rightarrow> event list \<Rightarrow> event list \<times> exn option" where
  \<comment> \<open>\<open>main\<close> from \<open>ensure_dir(images_dir)\<close> to its end; \<open>evs\<close> are the effects so far\<close>
  "main_job E A darktable_cli dataset_dir dngs groups timestamp job_name job_dir images_dir evs =
     (case export_loop_groups E A darktable_cli images_dir groups
             \<lparr>export_index = 0, exported = [], events = evs @ [Mkdir images_dir]\<rparr> of
        (st, Some ex) \<Rightarrow> (events st, Some ex)
      | (st, None) \<Rightarrow>
          (let pl = \<lparr>pl_tool = lit ''splatpack'',
                     pl_version = lit ''0.1.0'',
                     pl_dataset_dir = str_of_path dataset_dir,
                     pl_job_dir = str_of_path job_dir,
                     pl_images_dir = str_of_path images_dir,
                     pl_inputs_found = length dngs,
                     pl_outputs_written = length (exported st),
                     pl_darktable_style = arg_style A,
                     pl_jpg_quality = arg_quality A,
                     pl_max_long_edge = arg_max_long_edge A,
                     pl_created_at = timestamp,
                     pl_notes = lit ''If you need reliable resizing, add it to your darktable style.''\<rparr>;
               written = events st @ [write_job_json job_dir pl, write_manifest job_dir (exported st)];
               summary = [Eprint [], Eprint (lit ''Done.''),
                          Eprint (lit ''Exported JPGs: '' @ digits (length (exported st))),
                          Eprint (lit ''Job folder: '' @ str_of_path job_dir)]
           in if arg_zip A
              then (case zip_job E job_dir
                           (joinpath (joinpath dataset_dir (arg_out A))
                              (job_name @ lit ''_'' @ timestamp @ lit ''.zip'')) of
                      (zevs, Inl ex) \<Rightarrow> (written @ zevs, Some ex)
                    | (zevs, Inr zip_path) \<Rightarrow>
                        (written @ zevs @ [Eprint (lit ''Zipped: '' @ str_of_path zip_path)] @
                           summary @ [Eprint (lit ''Job zip: '' @ str_of_path zip_path)],
                         None))
              else (written @ summary, None)))"

definition main :: "env \<Rightarrow> args \<Rightarrow> event list \<times> exn option" where
  \<comment> \<open>\<open>main()\<close> on the parsed arguments: the effects in order, and the exception that ended
      the run if one did\<close>
  "main E A =
     (let dataset_dir = expanduser_resolve E (arg_path A) in
      if \<not> path_exists E dataset_dir \<or> \<not> path_is_dir E dataset_dir
      then ([], Some (SystemExit (lit ''Not a directory: '' @ str_of_path dataset_dir)))
      else if is_dangerous_directory E dataset_dir
      then ([], Some (SystemExit
                 (lit ''Refusing to run in a high risk directory: '' @ str_of_path dataset_dir @ [10] @
                  lit ''Copy your dataset into a project folder and run splatpack there.'')))
      else (case which_or_die E (lit ''darktable-cli'') of
              Inl ex \<Rightarrow> ([Which (lit ''darktable-cli'')], Some ex)
            | Inr darktable_cli \<Rightarrow>
                (let dngs = iter_dngs E dataset_dir;
                     found = [Which (lit ''darktable-cli''), Rglob dataset_dir]
                 in if dngs = []
                    then (found, Some (SystemExit
                                 (lit ''No DNG files found under: '' @ str_of_path dataset_dir)))
                    else
                      (let groups = group_by_parent_dir dngs;
                           timestamp = time_strftime E;
                           job_name = (case arg_job_name A of
                                         Some n \<Rightarrow> if n \<noteq> [] then n
                                                   else default_job_name E dataset_dir
                                       | None \<Rightarrow> default_job_name E dataset_dir);
                           job_dir = joinpath (joinpath dataset_dir (arg_out A))
                                       (job_name @ lit ''_'' @ timestamp);
                           images_dir = joinpath job_dir (lit ''images'');
                           evs = found @ announce A dataset_dir dngs groups job_dir images_dir
                       in if arg_dry_run A
                          then (evs @ [Eprint (lit ''Dry run only, no files will be written.'')], None)
                          else main_job E A darktable_cli dataset_dir dngs groups timestamp
                                 job_name job_dir images_dir evs))))"

section \<open>Observing a run\<close>

fun is_mutation :: "event \<Rightarrow> bool" where
  \<comment> \<open>the effects that change the file system\<close>
  "is_mutation (Mkdir p) = True"
| "is_mutation (Run cmd) = True"
| "is_mutation (WriteText p c) = True"
| "is_mutation (Unlink p) = True"
| "is_mutation (MakeArchive b r) = True"
| "is_mutation ev = False"

datatype artifact = ImageFile | MetadataFile | ManifestFile | ArchiveFile

fun artifacts :: "event list \<Rightarrow> artifact list" where
  \<comment> \<open>the job artifacts a run produces, in the order it produces them\<close>
  "artifacts [] = []"
| "artifacts (Run cmd # evs) = ImageFile # artifacts evs"
| "artifacts (WriteText p (JsonDump pl) # evs) = MetadataFile # artifacts evs"
| "artifacts (WriteText p (Text t) # evs) = ManifestFile # artifacts evs"
| "artifacts (MakeArchive b r # evs) = ArchiveFile # artifacts evs"
| "artifacts (ev # evs) = artifacts evs"

section \<open>Sample runs\<close>

text \<open>
  A small environment on which the model can be run: the walk yields \<open>files\<close> in the
  given order, every one of them a regular file, the converter is on the search path and
  answers as \<open>run\<close> says, and names are ASCII.
\<close>

definition sample_env :: "path list \<Rightarrow> (pystr list \<Rightarrow> proc_result) \<Rightarrow> env" where
  "sample_env files run =
     \<lparr>expanduser_resolve = components,
      path_resolve = (\<lambda>p. p),
      home_resolved = Some [lit ''home'', lit ''u''],
      path_exists = (\<lambda>p. True),
      path_is_dir = (\<lambda>p. p \<notin> set files),
      path_is_file = (\<lambda>p. p \<in> set files),
      path_rglob = (\<lambda>root. files),
      shutil_which = (\<lambda>tool. Some (lit ''/usr/bin/'' @ tool)),
      time_strftime = lit ''20260113_165501'',
      subprocess_run = run,
      str_isalnum = ascii_isalnum,
      str_lower = ascii_lower\<rparr>"

definition two_takes :: "path list" where
  "two_takes = [[lit ''d'', lit ''t2'', lit ''c.dng''], [lit ''d'', lit ''t1'', lit ''b.DNG''],
                [lit ''d'', lit ''t1'', lit ''notes.txt''], [lit ''d'', lit ''t1'', lit ''a.dng'']]"

definition dashed_takes :: "path list" where
  "dashed_takes = [[lit ''d'', lit ''a-1'', lit ''x.dng''], [lit ''d'', lit ''a'', lit ''x.dng'']]"

definition grouped_ok :: "(path \<times> path list) list \<Rightarrow> bool" where
  \<comment> \<open>the invariant of the grouping loop: one entry per parent, none empty, every file
      under its own parent\<close>
  "grouped_ok g \<longleftrightarrow>
     distinct (map fst g) \<and> (\<forall>(d, fs) \<in> set g. fs \<noteq> [] \<and> (\<forall>f\<in>set fs. parent f = d))"

section \<open>The naming scheme, for stating what the export loop does\<close>

definition dec_value :: "pystr \<Rightarrow> nat" where
  \<comment> \<open>the number a string of decimal digits denotes\<close>
  "dec_value s = foldl (\<lambda>a c. 10 * a + (c - 48)) 0 s"

definition out_path_of :: "env \<Rightarrow> path \<Rightarrow> path \<Rightarrow> nat \<Rightarrow> path" where
  \<comment> \<open>the output path the naming scheme gives a file of a group at a given index\<close>
  "out_path_of E images_dir parent_dir idx =
     joinpath images_dir
       (safe_name (str_isalnum E) (name parent_dir) @ lit ''_'' @ format_06d idx @ lit ''.jpg'')"

definition jobs :: "(path \<times> path list) list \<Rightarrow> (path \<times> path) list" where
  \<comment> \<open>the files to export, each with the directory of its group, in group-then-file order\<close>
  "jobs groups = concat (map (\<lambda>(parent_dir, files). map (Pair parent_dir) files) groups)"

definition outputs :: "env \<Rightarrow> path \<Rightarrow> (path \<times> path) list \<Rightarrow> nat \<Rightarrow> path list" where
  \<comment> \<open>the output paths of a job list when the counter stands at \<open>start\<close>\<close>
  "outputs E images_dir js start =
     map (\<lambda>(idx, (parent_dir, f)). out_path_of E images_dir parent_dir idx)
       (enumerate (Suc start) js)"

fun runs :: "event list \<Rightarrow> pystr list list" where
  \<comment> \<open>the converter commands of a trace, in order\<close>
  "runs [] = []"
| "runs (Run cmd # evs) = cmd # runs evs"
| "runs (ev # evs) = runs evs"

definition commands :: "env \<Rightarrow> args \<Rightarrow> pystr \<Rightarrow> path \<Rightarrow> (path \<times> path) list \<Rightarrow> nat \<Rightarrow> pystr list list" where
  \<comment> \<open>the converter commands of a job list when the counter stands at \<open>start\<close>\<close>
  "commands E A cli images_dir js start =
     map (\<lambda>(idx, (parent_dir, f)).
            darktable_cmd cli f (out_path_of E images_dir parent_dir idx)
              (arg_style A) (arg_quality A) (arg_max_long_edge A))
       (enumerate (Suc start) js)"

definition sample_args :: args where
  "sample_args =
     \<lparr>arg_path = lit ''/d'', arg_out = lit ''_splatpack'', arg_style = None, arg_quality = 95,
      arg_max_long_edge = None, arg_zip = False, arg_job_name = None, arg_dry_run = False\<rparr>"

definition sample_images_dir :: path where
  "sample_images_dir = [lit ''d'', lit ''_splatpack'', lit ''d_20260113_165501'', lit ''images'']"

definition sorted_takes :: "path list" where
  "sorted_takes = [[lit ''d'', lit ''t1'', lit ''a.dng''], [lit ''d'', lit ''t1'', lit ''b.DNG''],
                   [lit ''d'', lit ''t2'', lit ''c.dng'']]"

section \<open>Names for the stages of \<open>main\<close>, for stating what a run does\<close>

definition job_name_of :: "env \<Rightarrow> args \<Rightarrow> pystr" where
  \<comment> \<open>\<open>job_name\<close> as \<open>main\<close> computes it\<close>
  "job_name_of E A =
     (case arg_job_name A of
        Some n \<Rightarrow> if n \<noteq> [] then n else default_job_name E (expanduser_resolve E (arg_path A))
      | None \<Rightarrow> default_job_name E (expanduser_resolve E (arg_path A)))"

definition job_dir_of :: "env \<Rightarrow> args \<Rightarrow> path" where
  \<comment> \<open>\<open>job_dir\<close> as \<open>main\<close> computes it\<close>
  "job_dir_of E A =
     joinpath (joinpath (expanduser_resolve E (arg_path A)) (arg_out A))
       (job_name_of E A @ lit ''_'' @ time_strftime E)"

definition images_dir_of :: "env \<Rightarrow> args \<Rightarrow> path" where
  \<comment> \<open>\<open>images_dir\<close> as \<open>main\<close> computes it\<close>
  "images_dir_of E A = joinpath (job_dir_of E A) (lit ''images'')"

definition preamble :: "env \<Rightarrow> args \<Rightarrow> event list" where
  \<comment> \<open>the effects of a run that passes the checks and finds inputs, up to the dry-run test\<close>
  "preamble E A =
     [Which (lit ''darktable-cli''), Rglob (expanduser_resolve E (arg_path A))] @
     announce A (expanduser_resolve E (arg_path A))
       (iter_dngs E (expanduser_resolve E (arg_path A)))
       (group_by_parent_dir (iter_dngs E (expanduser_resolve E (arg_path A))))
       (job_dir_of E A) (images_dir_of E A)"

definition refusal :: "path \<Rightarrow> pystr" where
  \<comment> \<open>the message of the safety check\<close>
  "refusal dataset_dir =
     lit ''Refusing to run in a high risk directory: '' @ str_of_path dataset_dir @ [10] @
     lit ''Copy your dataset into a project folder and run splatpack there.''"

definition preflight_ok :: "env \<Rightarrow> args \<Rightarrow> pystr \<Rightarrow> bool" where
  \<comment> \<open>the directory is valid and allowed and the converter is found\<close>
  "preflight_ok E A cli \<longleftrightarrow>
     path_exists E (expanduser_resolve E (arg_path A)) \<and>
     path_is_dir E (expanduser_resolve E (arg_path A)) \<and>
     \<not> is_dangerous_directory E (expanduser_resolve E (arg_path A)) \<and>
     which_or_die E (lit ''darktable-cli'') = Inr cli"

fun conversion_ok :: "env \<Rightarrow> event \<Rightarrow> bool" where
  \<comment> \<open>an effect of the export loop when no conversion fails: a successful run of the converter or a progress line\<close>
  "conversion_ok E (Run cmd) = (subprocess_run E cmd = Completed)"
| "conversion_ok E (Eprint m) = True"
| "conversion_ok E ev = False"

fun run_ok :: "env \<Rightarrow> event \<Rightarrow> bool" where
  \<comment> \<open>the effect is not a failed conversion\<close>
  "run_ok E (Run cmd) = (subprocess_run E cmd = Completed)"
| "run_ok E ev = True"

fun is_removal :: "event \<Rightarrow> bool" where
  \<comment> \<open>the effect removes a file\<close>
  "is_removal (Unlink p) = True"
| "is_removal ev = False"

definition failure_message :: "path \<Rightarrow> pystr option \<Rightarrow> pystr" where
  \<comment> \<open>the message of a failed conversion\<close>
  "failure_message f err = lit ''darktable-cli failed on: '' @ str_of_path f @ [10] @ stderr_text err"

definition sample_cli :: pystr where
  \<comment> \<open>where the sample environment finds the converter\<close>
  "sample_cli = lit ''/usr/bin/'' @ lit ''darktable-cli''"

fun failing_run :: "pystr list \<Rightarrow> proc_result" where
  \<comment> \<open>a converter that fails on one frame of the sample\<close>
  "failing_run (tool # input # rest) =
     (if input = lit ''/d/t1/b.DNG'' then CalledProcessError (Some (lit ''bad frame''))
      else Completed)"
| "failing_run cmd = Completed"

section \<open>Properties of \<open>safe_name\<close>\<close>


lemma sanitize_chars_map:
  "sanitize_chars A s out = out @ map (\<lambda>c. if allowed A c then c else 95) s"
  by (induction s arbitrary: out) auto

lemma last_dropWhile_keep: "dropWhile P xs \<noteq> [] \<Longrightarrow> last (dropWhile P xs) = last xs"
  by (induction xs) (auto split: if_splits)

lemma strip_ends:
  assumes "strip s \<noteq> []"
  shows "\<not> isspace (hd (strip s))" and "\<not> isspace (last (strip s))"
proof -
  let ?t = "dropWhile isspace s"
  let ?u = "dropWhile isspace (rev ?t)"
  from assms have u: "?u \<noteq> []" by (simp add: strip_def)
  have t: "?t \<noteq> []"
  proof
    assume "?t = []"
    with u show False by simp
  qed
  have "last (strip s) = hd ?u" using u by (simp add: strip_def last_rev)
  moreover have "\<not> isspace (hd ?u)" using u by (rule hd_dropWhile)
  ultimately show "\<not> isspace (last (strip s))" by simp
  have "hd (strip s) = last ?u" using u by (simp add: strip_def hd_rev)
  also have "\<dots> = last (rev ?t)" using u by (rule last_dropWhile_keep)
  also have "\<dots> = hd ?t" using t by (simp add: last_rev)
  finally have "hd (strip s) = hd ?t" .
  moreover have "\<not> isspace (hd ?t)" using t by (rule hd_dropWhile)
  ultimately show "\<not> isspace (hd (strip s))" by simp
qed

lemma strip_id:
  assumes "s \<noteq> []" "\<not> isspace (hd s)" "\<not> isspace (last s)"
  shows "strip s = s"
proof -
  from assms have 1: "dropWhile isspace s = s" by (cases s) auto
  from assms have "rev s \<noteq> []" "\<not> isspace (hd (rev s))" by (simp_all add: hd_rev)
  then have 2: "dropWhile isspace (rev s) = rev s" by (cases "rev s") auto
  show ?thesis by (simp add: strip_def 1 2)
qed

lemma replace_double_space_ends:
  "s \<noteq> [] \<Longrightarrow> replace_double_space s \<noteq> [] \<and> hd (replace_double_space s) = hd s
       \<and> last (replace_double_space s) = last s"
  by (induction s rule: replace_double_space.induct) auto

lemma set_replace_double_space: "set (replace_double_space s) \<subseteq> set s"
  by (induction s rule: replace_double_space.induct) auto

lemma collapse_spaces_ends:
  "s \<noteq> [] \<Longrightarrow> collapse_spaces s \<noteq> [] \<and> hd (collapse_spaces s) = hd s
       \<and> last (collapse_spaces s) = last s"
proof (induction s rule: collapse_spaces.induct)
  case (1 safe)
  show ?case
  proof (cases "has_double_space safe")
    case True
    with 1 replace_double_space_ends [of safe] show ?thesis
      by (simp add: collapse_spaces.simps [of safe])
  next
    case False
    then show ?thesis using 1 by (simp add: collapse_spaces.simps [of safe])
  qed
qed

lemma set_collapse_spaces: "set (collapse_spaces s) \<subseteq> set s"
proof (induction s rule: collapse_spaces.induct)
  case (1 safe)
  show ?case
  proof (cases "has_double_space safe")
    case True
    with 1 set_replace_double_space [of safe] show ?thesis
      by (auto simp: collapse_spaces.simps [of safe])
  next
    case False
    then show ?thesis by (simp add: collapse_spaces.simps [of safe])
  qed
qed

lemma collapse_spaces_no_double: "\<not> has_double_space (collapse_spaces s)"
proof (induction s rule: collapse_spaces.induct)
  case (1 safe)
  then show ?case by (cases "has_double_space safe") (simp_all add: collapse_spaces.simps [of safe])
qed

lemma collapse_spaces_id: "\<not> has_double_space s \<Longrightarrow> collapse_spaces s = s"
  by (simp add: collapse_spaces.simps [of s])

lemma isspace_95: "\<not> isspace 95" by (simp add: isspace_def)

lemma safe_name_nonblank:
  assumes "strip s \<noteq> []"
  shows "safe_name A s = collapse_spaces (map (\<lambda>c. if allowed A c then c else 95) (strip s))"
proof -
  let ?m = "map (\<lambda>c. if allowed A c then c else 95) (strip s)"
  have ne: "?m \<noteq> []" using assms by simp
  have "hd ?m = (if allowed A (hd (strip s)) then hd (strip s) else 95)"
    using assms by (simp add: hd_map)
  then have h: "\<not> isspace (hd ?m)" using strip_ends(1) [OF assms] isspace_95 by simp
  have "last ?m = (if allowed A (last (strip s)) then last (strip s) else 95)"
    using assms by (simp add: last_map)
  then have l: "\<not> isspace (last ?m)" using strip_ends(2) [OF assms] isspace_95 by simp
  have "strip ?m = ?m" using ne h l by (rule strip_id)
  then show ?thesis using assms by (simp add: safe_name_def sanitize_chars_map)
qed

lemma safe_name_blank: "strip s = [] \<Longrightarrow> safe_name A s = lit ''dataset''"
  by (simp add: safe_name_def)

lemma has_double_space_replicate: "c \<noteq> 32 \<Longrightarrow> \<not> has_double_space (replicate n c)"
proof (induction n)
  case (Suc n)
  then show ?case by (cases n) auto
qed simp

lemma lit_dataset: "lit ''dataset'' = [100, 97, 116, 97, 115, 101, 116]"
  by (simp add: lit_def)


lemma safe_name_idem:
  assumes "list_all A (lit ''dataset'')"
  shows "safe_name A (safe_name A s) = safe_name A s"
proof (cases "strip s = []")
  case True
  have d: "strip (lit ''dataset'') = lit ''dataset''"
    by (rule strip_id) (simp_all add: lit_dataset isspace_def)
  have m: "map (\<lambda>c. if allowed A c then c else 95) (lit ''dataset'') = lit ''dataset''"
    using assms by (simp add: lit_dataset allowed_def)
  have "\<not> has_double_space (lit ''dataset'')" by (simp add: lit_dataset)
  then have "collapse_spaces (lit ''dataset'') = lit ''dataset''" by (rule collapse_spaces_id)
  moreover have "safe_name A (lit ''dataset'') = collapse_spaces (map (\<lambda>c. if allowed A c then c else 95) (strip (lit ''dataset'')))"
    by (rule safe_name_nonblank) (simp only: d, simp add: lit_dataset)
  ultimately show ?thesis using True by (simp add: safe_name_blank d m)
next
  case False
  let ?m = "map (\<lambda>c. if allowed A c then c else 95) (strip s)"
  let ?r = "collapse_spaces ?m"
  have r: "safe_name A s = ?r" using False by (rule safe_name_nonblank)
  have ne: "?m \<noteq> []" using False by simp
  have "hd ?m = (if allowed A (hd (strip s)) then hd (strip s) else 95)"
    using False by (simp add: hd_map)
  then have h: "\<not> isspace (hd ?m)" using strip_ends(1) [OF False] isspace_95 by simp
  have "last ?m = (if allowed A (last (strip s)) then last (strip s) else 95)"
    using False by (simp add: last_map)
  then have l: "\<not> isspace (last ?m)" using strip_ends(2) [OF False] isspace_95 by simp
  from collapse_spaces_ends [OF ne] h l
  have "?r \<noteq> []" "\<not> isspace (hd ?r)" "\<not> isspace (last ?r)" by simp_all
  then have sr: "strip ?r = ?r" by (rule strip_id)
  have "\<forall>c\<in>set ?m. allowed A c" by (auto simp: allowed_def)
  with set_collapse_spaces [of ?m] have "\<forall>c\<in>set ?r. allowed A c" by blast
  then have mr: "map (\<lambda>c. if allowed A c then c else 95) ?r = ?r" by (intro map_idI) simp
  have "safe_name A ?r = collapse_spaces (map (\<lambda>c. if allowed A c then c else 95) (strip ?r))"
    by (rule safe_name_nonblank) (simp add: sr \<open>?r \<noteq> []\<close>)
  also have "\<dots> = collapse_spaces ?r" by (simp only: sr mr)
  also have "\<dots> = ?r" by (rule collapse_spaces_id) (rule collapse_spaces_no_double)
  finally show ?thesis by (simp only: r)
qed

lemma safe_name_nonempty: "safe_name A s \<noteq> []"
proof (cases "strip s = []")
  case True
  then show ?thesis by (simp add: safe_name_blank lit_dataset)
next
  case False
  then have "map (\<lambda>c. if allowed A c then c else 95) (strip s) \<noteq> []" by simp
  from collapse_spaces_ends [OF this] show ?thesis by (simp add: safe_name_nonblank [OF False])
qed

lemma safe_name_no_double_space: "\<not> has_double_space (safe_name A s)"
proof (cases "strip s = []")
  case True
  then show ?thesis by (simp add: safe_name_blank lit_dataset)
next
  case False
  then show ?thesis by (simp add: safe_name_nonblank collapse_spaces_no_double)
qed

lemma set_strip: "set (strip s) \<subseteq> set s"
  by (auto simp: strip_def dest!: set_dropWhileD)

lemma map_const_replicate: "(\<forall>c\<in>set xs. f c = k) \<Longrightarrow> map f xs = replicate (length xs) k"
  by (induction xs) auto

lemma safe_name_all_disallowed:
  assumes "all_disallowed A s" "strip s \<noteq> []"
  shows "safe_name A s = replicate (length (strip s)) 95"
proof -
  from assms(1) set_strip [of s] have "\<forall>c\<in>set (strip s). \<not> allowed A c"
    by (auto simp: all_disallowed_def list_all_iff)
  then have "map (\<lambda>c. if allowed A c then c else 95) (strip s) = replicate (length (strip s)) 95"
    by (intro map_const_replicate) simp
  moreover have "collapse_spaces (replicate (length (strip s)) 95) = replicate (length (strip s)) 95"
    by (rule collapse_spaces_id) (simp add: has_double_space_replicate)
  ultimately show ?thesis by (simp add: safe_name_nonblank [OF assms(2)])
qed

lemma allowed_safe_name:
  assumes "list_all A (lit ''dataset'')"
  shows "list_all (allowed A) (safe_name A s)"
proof (cases "strip s = []")
  case True
  then show ?thesis using assms by (simp add: safe_name_blank lit_dataset allowed_def)
next
  case False
  have "\<forall>c\<in>set (map (\<lambda>c. if allowed A c then c else 95) (strip s)). allowed A c"
    by (auto simp: allowed_def)
  with set_collapse_spaces have "\<forall>c\<in>set (safe_name A s). allowed A c" 
    unfolding safe_name_nonblank [OF False] by blast
  then show ?thesis by (simp add: list_all_iff)
qed



text \<open>
  Claim C4, as the code has it. For every string \<open>s\<close> and every classification
  \<open>isalnum\<close> of the characters: where the letters of the placeholder count as
  alphanumeric, sanitising is idempotent; the result is never empty; a string made only of
  disallowed characters that is not all whitespace becomes a non-empty run of underscores,
  one for each character left after trimming; for an input that is not blank after
  trimming the result is the trimmed input with every character outside alphanumeric,
  underscore, dot and space replaced by an underscore and runs of spaces collapsed; the
  result holds no two adjacent spaces; an input that is empty after trimming yields the
  placeholder \<open>dataset\<close>.
\<close>

theorem safe_name_sanitizes:
  shows "(list_all isalnum (lit ''dataset'') \<longrightarrow>
            safe_name isalnum (safe_name isalnum s) = safe_name isalnum s)
       \<and> safe_name isalnum s \<noteq> []
       \<and> (all_disallowed isalnum s \<and> strip s \<noteq> [] \<longrightarrow>
            safe_name isalnum s = replicate (length (strip s)) 95)
       \<and> (strip s \<noteq> [] \<longrightarrow>
            safe_name isalnum s =
              collapse_spaces (map (\<lambda>c. if allowed isalnum c then c else 95) (strip s)))
       \<and> \<not> has_double_space (safe_name isalnum s)
       \<and> (strip s = [] \<longrightarrow> safe_name isalnum s = lit ''dataset'')"
  using safe_name_idem [of isalnum s] safe_name_nonempty [of isalnum s]
    safe_name_all_disallowed [of isalnum s] safe_name_nonblank [of s isalnum]
    safe_name_no_double_space [of isalnum s] safe_name_blank [of s isalnum]
  by blast

theorem safe_name_sanitizes_witness:
  "list_all ascii_isalnum (lit ''dataset'')
   \<and> all_disallowed ascii_isalnum [47, 9] \<and> strip [47, 9] \<noteq> []
   \<and> safe_name ascii_isalnum [47, 9] = [95]
   \<and> safe_name ascii_isalnum (safe_name ascii_isalnum [47, 9]) = safe_name ascii_isalnum [47, 9]
   \<and> strip [9] = [] \<and> safe_name ascii_isalnum [9] = lit ''dataset''"
proof -
  have d: "list_all ascii_isalnum (lit ''dataset'')"
    by (simp add: lit_def ascii_isalnum_def)
  have a: "all_disallowed ascii_isalnum [47, 9]"
    by (simp add: all_disallowed_def allowed_def ascii_isalnum_def)
  have s1: "strip [47, 9] = [47]" and s2: "strip [9] = []"
    by (simp_all add: strip_def isspace_def)
  have n: "strip [47, 9] \<noteq> []" by (simp add: s1)
  note t1 = safe_name_sanitizes [of ascii_isalnum "[47, 9]"]
    and t2 = safe_name_sanitizes [of ascii_isalnum "[9]"]
  from t1 d have i: "safe_name ascii_isalnum (safe_name ascii_isalnum [47, 9]) = safe_name ascii_isalnum [47, 9]"
    by blast
  from t1 a n have "safe_name ascii_isalnum [47, 9] = replicate (length (strip [47, 9])) 95"
    by blast
  then have u: "safe_name ascii_isalnum [47, 9] = [95]" by (simp add: s1)
  from t2 s2 have p: "safe_name ascii_isalnum [9] = lit ''dataset''" by blast
  from d a n u i s2 p show ?thesis by blast
qed

text \<open>
  The claim as the specification words it fails on a tab: the string is not empty and
  holds only disallowed characters, yet trimming empties it and the result is the
  placeholder, not underscores.
\<close>

theorem safe_name_whitespace_counterexample:
  "[9] \<noteq> [] \<and> all_disallowed ascii_isalnum [9]
   \<and> safe_name ascii_isalnum [9] = lit ''dataset''
   \<and> \<not> all_underscores (safe_name ascii_isalnum [9])"
  by (simp add: all_disallowed_def allowed_def ascii_isalnum_def safe_name_def strip_def
        isspace_def all_underscores_def lit_def)

section \<open>Properties of discovery and grouping\<close>


lemma sort_cong_mset: "mset xs = mset ys \<Longrightarrow> sort xs = sort (ys :: 'a :: linorder list)"
  by (rule properties_for_sort) simp_all

lemma iter_dngs_sorted: "sorted (iter_dngs E root)"
  by (simp add: iter_dngs_def)

lemma mset_iter_dngs:
  "mset (iter_dngs E root) =
     filter_mset (\<lambda>p. path_is_file E p \<and> str_lower E (suffix p) \<in> DNG_EXTS) (mset (path_rglob E root))"
  by (simp add: iter_dngs_def)

lemma iter_dngs_deterministic:
  assumes "mset (path_rglob E' root) = mset (path_rglob E root)"
    and "path_is_file E' = path_is_file E" and "str_lower E' = str_lower E"
  shows "iter_dngs E' root = iter_dngs E root"
  unfolding iter_dngs_def
  by (rule sort_cong_mset) (simp add: assms)


lemma fst_setdefault_append:
  "map fst (setdefault_append g k p) = (if k \<in> set (map fst g) then map fst g else map fst g @ [k])"
proof (induction g)
  case Nil
  show ?case by simp
next
  case (Cons a g)
  obtain k' fs where a: "a = (k', fs)" by (cases a)
  show ?case
  proof (cases "k' = k")
    case True
    then show ?thesis by (simp add: a)
  next
    case False
    with Cons show ?thesis by (cases "k \<in> set (map fst g)") (simp_all add: a)
  qed
qed

lemma mset_setdefault_append:
  "mset (concat (map snd (setdefault_append g k p))) = mset (concat (map snd g)) + {#p#}"
  by (induction g) auto

lemma set_setdefault_append:
  "(d, fs) \<in> set (setdefault_append g k p) \<Longrightarrow>
     (d, fs) \<in> set g \<or> (d = k \<and> (fs = [p] \<or> (\<exists>fs'. (k, fs') \<in> set g \<and> fs = fs' @ [p])))"
  by (induction g) (auto split: if_splits)

lemma grouped_ok_step: "grouped_ok g \<Longrightarrow> grouped_ok (setdefault_append g (parent p) p)"
  unfolding grouped_ok_def
proof (intro conjI, goal_cases)
  case 1
  then show ?case by (simp add: fst_setdefault_append)
next
  case 2
  show ?case
  proof (clarify, goal_cases)
    case (1 d fs)
    from set_setdefault_append [OF 1] 2 show ?case by fastforce
  qed
qed

lemma foldl_groups:
  "grouped_ok g \<Longrightarrow>
     grouped_ok (foldl (\<lambda>g p. setdefault_append g (parent p) p) g dngs)
   \<and> mset (concat (map snd (foldl (\<lambda>g p. setdefault_append g (parent p) p) g dngs)))
       = mset (concat (map snd g)) + mset dngs"
proof (induction dngs arbitrary: g)
  case Nil
  then show ?case by simp
next
  case (Cons p dngs)
  from Cons.IH [OF grouped_ok_step [OF Cons.prems, of p]]
  show ?case by (simp add: mset_setdefault_append)
qed

lemma mset_concat_map_cong:
  "mset xs = mset ys \<Longrightarrow> mset (concat (map h xs)) = mset (concat (map h ys))"
proof -
  assume a: "mset xs = mset ys"
  have "\<And>zs. mset (concat (map h zs)) = sum_mset (image_mset (\<lambda>z. mset (h z)) (mset zs))"
    by (induct_tac zs) auto
  with a show ?thesis by simp
qed

lemma mset_concat_sorted_groups:
  "mset (concat (map snd (map (\<lambda>(d, fs). (d, sort fs)) g))) = mset (concat (map snd g))"
  by (induction g) auto

lemma group_mset: "mset (concat (map snd (group_by_parent_dir dngs))) = mset dngs"
proof -
  let ?g = "foldl (\<lambda>g p. setdefault_append g (parent p) p) [] dngs"
  have ok: "grouped_ok []" by (simp add: grouped_ok_def)
  have "mset (concat (map snd (sort_key (\<lambda>kv. str_of_path (fst kv)) ?g))) = mset (concat (map snd ?g))"
    by (rule mset_concat_map_cong) simp
  with foldl_groups [OF ok, of dngs] show ?thesis
    by (simp add: group_by_parent_dir_def Let_def mset_concat_sorted_groups del: map_map)
qed

lemma fst_sorted_groups: "map fst (map (\<lambda>(d, fs). (d, sort fs)) g) = map fst g"
  by (induction g) auto

lemma group_distinct: "distinct (map fst (group_by_parent_dir dngs))"
proof -
  let ?g = "foldl (\<lambda>g p. setdefault_append g (parent p) p) [] dngs"
  have ok: "grouped_ok []" by (simp add: grouped_ok_def)
  with foldl_groups [OF ok, of dngs] have d: "distinct (map fst ?g)" by (simp add: grouped_ok_def)
  have "mset (map fst (sort_key (\<lambda>kv. str_of_path (fst kv)) ?g)) = mset (map fst ?g)"
    by simp
  from mset_eq_imp_distinct_iff [OF this] d
  have "distinct (map fst (sort_key (\<lambda>kv. str_of_path (fst kv)) ?g))" by simp
  then show ?thesis
    by (simp add: group_by_parent_dir_def Let_def fst_sorted_groups del: map_map)
qed

lemma group_members:
  assumes "(d, files) \<in> set (group_by_parent_dir dngs)"
  shows "files \<noteq> [] \<and> sorted files \<and> (\<forall>f\<in>set files. parent f = d)"
proof -
  let ?g = "foldl (\<lambda>g p. setdefault_append g (parent p) p) [] dngs"
  have ok: "grouped_ok []" by (simp add: grouped_ok_def)
  from assms obtain fs where m: "(d, fs) \<in> set ?g" and f: "files = sort fs"
    by (auto simp: group_by_parent_dir_def Let_def)
  from foldl_groups [OF ok, of dngs] m have "fs \<noteq> [] \<and> (\<forall>f\<in>set fs. parent f = d)"
    by (auto simp: grouped_ok_def)
  moreover have "sort fs \<noteq> []" if "fs \<noteq> []"
    using that by (metis length_sort length_0_conv)
  ultimately show ?thesis using f by simp
qed

lemma group_sorted_keys:
  "sorted (map (\<lambda>g. str_of_path (fst g)) (group_by_parent_dir dngs))"
proof -
  have h: "\<And>g. map (\<lambda>g. str_of_path (fst g)) (map (\<lambda>(d, fs). (d, sort fs)) g) = map (\<lambda>g. str_of_path (fst g)) g"
    by (induct_tac g) auto
  show ?thesis
    unfolding group_by_parent_dir_def Let_def h by (rule sorted_sort_key)
qed

lemma group_unique:
  assumes "f \<in> set dngs"
  shows "\<exists>!g. g \<in> set (group_by_parent_dir dngs) \<and> f \<in> set (snd g)"
proof -
  let ?G = "group_by_parent_dir dngs"
  from assms have "f \<in># mset (concat (map snd ?G))" by (simp add: group_mset)
  then have "f \<in> set (concat (map snd ?G))" by (simp only: set_mset_mset)
  then obtain g where g: "g \<in> set ?G" "f \<in> set (snd g)" by auto
  have "g' = g" if "g' \<in> set ?G" "f \<in> set (snd g')" for g'
  proof -
    from group_members [of "fst g" "snd g" dngs] g have "fst g = parent f" by simp
    moreover from group_members [of "fst g'" "snd g'" dngs] that have "fst g' = parent f" by simp
    ultimately have "fst g' = fst g" by simp
    with group_distinct [of dngs] that(1) g(1) show ?thesis
      by (auto simp: distinct_map dest: inj_onD)
  qed
  with g show ?thesis by blast
qed


lemma lit_chars:
  "lit ''d'' = [100]" "lit ''t1'' = [116, 49]" "lit ''t2'' = [116, 50]"
  "lit ''a.dng'' = [97, 46, 100, 110, 103]" "lit ''b.DNG'' = [98, 46, 68, 78, 71]"
  "lit ''c.dng'' = [99, 46, 100, 110, 103]" "lit ''x.dng'' = [120, 46, 100, 110, 103]"
  "lit ''notes.txt'' = [110, 111, 116, 101, 115, 46, 116, 120, 116]"
  "lit ''a'' = [97]" "lit ''a-1'' = [97, 45, 49]" "lit ''.dng'' = [46, 100, 110, 103]"
  by (simp_all add: lit_def)

lemma filter_two_takes:
  "filter (\<lambda>p. p \<in> set two_takes \<and> ascii_lower (suffix p) \<in> DNG_EXTS) two_takes =
     [[lit ''d'', lit ''t2'', lit ''c.dng''], [lit ''d'', lit ''t1'', lit ''b.DNG''],
      [lit ''d'', lit ''t1'', lit ''a.dng'']]"
  by (simp add: two_takes_def lit_chars suffix_def name_def DNG_EXTS_def ascii_lower_def)

lemma sort_two_takes:
  "sort [[lit ''d'', lit ''t2'', lit ''c.dng''], [lit ''d'', lit ''t1'', lit ''b.DNG''],
      [lit ''d'', lit ''t1'', lit ''a.dng'']] =
     [[lit ''d'', lit ''t1'', lit ''a.dng''], [lit ''d'', lit ''t1'', lit ''b.DNG''],
      [lit ''d'', lit ''t2'', lit ''c.dng'']]"
  by (simp add: lit_chars)

lemma iter_two_takes:
  "iter_dngs (sample_env two_takes run) [lit ''d''] =
     [[lit ''d'', lit ''t1'', lit ''a.dng''], [lit ''d'', lit ''t1'', lit ''b.DNG''],
      [lit ''d'', lit ''t2'', lit ''c.dng'']]"
  by (simp only: iter_dngs_def sample_env_def env.simps filter_two_takes sort_two_takes)

lemma filter_dashed_takes:
  "filter (\<lambda>p. p \<in> set dashed_takes \<and> ascii_lower (suffix p) \<in> DNG_EXTS) dashed_takes =
     [[lit ''d'', lit ''a-1'', lit ''x.dng''], [lit ''d'', lit ''a'', lit ''x.dng'']]"
  by (simp add: dashed_takes_def lit_chars suffix_def name_def DNG_EXTS_def ascii_lower_def)

lemma sort_dashed_takes:
  "sort [[lit ''d'', lit ''a-1'', lit ''x.dng''], [lit ''d'', lit ''a'', lit ''x.dng'']] =
     [[lit ''d'', lit ''a'', lit ''x.dng''], [lit ''d'', lit ''a-1'', lit ''x.dng'']]"
  by (simp add: lit_chars)

lemma iter_dashed:
  "iter_dngs (sample_env dashed_takes run) [lit ''d''] =
     [[lit ''d'', lit ''a'', lit ''x.dng''], [lit ''d'', lit ''a-1'', lit ''x.dng'']]"
  by (simp only: iter_dngs_def sample_env_def env.simps filter_dashed_takes sort_dashed_takes)


lemma group_two_takes:
  "group_by_parent_dir [[lit ''d'', lit ''t1'', lit ''a.dng''], [lit ''d'', lit ''t1'', lit ''b.DNG''],
        [lit ''d'', lit ''t2'', lit ''c.dng'']] =
   [([lit ''d'', lit ''t1''], [[lit ''d'', lit ''t1'', lit ''a.dng''], [lit ''d'', lit ''t1'', lit ''b.DNG'']]),
    ([lit ''d'', lit ''t2''], [[lit ''d'', lit ''t2'', lit ''c.dng'']])]"
  by (simp add: group_by_parent_dir_def parent_def str_of_path_def lit_chars)


text \<open>
  Claim C3, as the code has it. For every root directory, \<open>iter_dngs\<close> returns exactly
  the regular files of the walk whose suffix, lower-cased, is in the configured set, each
  as often as the walk yields it, sorted in the order of paths: lexicographic by the
  sequence of path components, each component compared as a string. That order is total,
  and the result does not depend on the order in which the walk yields the entries:
  two walks with the same entries give the identical sequence.
\<close>

theorem iter_dngs_sorted_deterministic:
  "sorted (iter_dngs E root)
   \<and> mset (iter_dngs E root) =
       filter_mset (\<lambda>p. path_is_file E p \<and> str_lower E (suffix p) \<in> DNG_EXTS)
         (mset (path_rglob E root))
   \<and> (mset (path_rglob E' root) = mset (path_rglob E root) \<and> path_is_file E' = path_is_file E
        \<and> str_lower E' = str_lower E \<longrightarrow> iter_dngs E' root = iter_dngs E root)"
  using iter_dngs_sorted [of E root] mset_iter_dngs [of E root]
    iter_dngs_deterministic [of E' root E]
  by blast

theorem iter_dngs_sorted_deterministic_witness:
  "mset (path_rglob (sample_env (rev two_takes) (\<lambda>c. Completed)) [lit ''d''])
     = mset (path_rglob (sample_env two_takes (\<lambda>c. Completed)) [lit ''d''])
   \<and> path_is_file (sample_env (rev two_takes) (\<lambda>c. Completed))
       = path_is_file (sample_env two_takes (\<lambda>c. Completed))
   \<and> str_lower (sample_env (rev two_takes) (\<lambda>c. Completed))
       = str_lower (sample_env two_takes (\<lambda>c. Completed))
   \<and> iter_dngs (sample_env (rev two_takes) (\<lambda>c. Completed)) [lit ''d'']
       = iter_dngs (sample_env two_takes (\<lambda>c. Completed)) [lit ''d'']
   \<and> iter_dngs (sample_env two_takes (\<lambda>c. Completed)) [lit ''d''] =
       [[lit ''d'', lit ''t1'', lit ''a.dng''], [lit ''d'', lit ''t1'', lit ''b.DNG''],
        [lit ''d'', lit ''t2'', lit ''c.dng'']]"
proof -
  let ?E = "sample_env two_takes (\<lambda>c. Completed)" and ?E' = "sample_env (rev two_takes) (\<lambda>c. Completed)"
  have 1: "mset (path_rglob ?E' [lit ''d'']) = mset (path_rglob ?E [lit ''d''])"
    by (simp add: sample_env_def)
  have 2: "path_is_file ?E' = path_is_file ?E" by (simp add: sample_env_def)
  have 3: "str_lower ?E' = str_lower ?E" by (simp add: sample_env_def)
  from iter_dngs_sorted_deterministic [of ?E "[lit ''d'']" ?E'] 1 2 3
  have 4: "iter_dngs ?E' [lit ''d''] = iter_dngs ?E [lit ''d'']" by blast
  from 1 2 3 4 iter_two_takes [of "\<lambda>c. Completed"] show ?thesis by blast
qed

text \<open>
  The order is not the order of the full path strings. With the directories \<open>/d/a\<close>
  and \<open>/d/a-1\<close>, \<open>/d/a/x.dng\<close> comes first as a path (\<open>a\<close> is a prefix of
  \<open>a-1\<close>), though as a string \<open>/d/a-1/x.dng\<close> is smaller (\<open>-\<close> sorts before
  \<open>/\<close>).
\<close>

theorem iter_dngs_string_order_counterexample:
  "iter_dngs (sample_env dashed_takes (\<lambda>c. Completed)) [lit ''d''] =
     [[lit ''d'', lit ''a'', lit ''x.dng''], [lit ''d'', lit ''a-1'', lit ''x.dng'']]
   \<and> \<not> sorted (map str_of_path (iter_dngs (sample_env dashed_takes (\<lambda>c. Completed)) [lit ''d'']))"
  unfolding iter_dashed by (simp add: str_of_path_def lit_chars)


text \<open>
  Claim C5. For every list of discovered files (sorted or not), grouping by parent
  directory is a partition: the groups together hold exactly the files of the input, each
  as often as the input has it; there is one group per parent directory; no group is
  empty, the files of a group are sorted and all lie directly in the group's directory;
  the groups are ordered by the path string of their directory; and every input file is
  in exactly one group.
\<close>

theorem group_by_parent_dir_partition:
  "mset (concat (map snd (group_by_parent_dir dngs))) = mset dngs
   \<and> distinct (map fst (group_by_parent_dir dngs))
   \<and> (\<forall>(d, files) \<in> set (group_by_parent_dir dngs).
        files \<noteq> [] \<and> sorted files \<and> (\<forall>f\<in>set files. parent f = d))
   \<and> sorted (map (\<lambda>g. str_of_path (fst g)) (group_by_parent_dir dngs))
   \<and> (\<forall>f\<in>set dngs. \<exists>!g. g \<in> set (group_by_parent_dir dngs) \<and> f \<in> set (snd g))"
  using group_mset [of dngs] group_distinct [of dngs] group_members [of _ _ dngs]
    group_sorted_keys [of dngs] group_unique [of _ dngs]
  by blast


theorem group_by_parent_dir_partition_witness:
  "group_by_parent_dir [[lit ''d'', lit ''t1'', lit ''a.dng''], [lit ''d'', lit ''t1'', lit ''b.DNG''],
        [lit ''d'', lit ''t2'', lit ''c.dng'']] =
     [([lit ''d'', lit ''t1''],
       [[lit ''d'', lit ''t1'', lit ''a.dng''], [lit ''d'', lit ''t1'', lit ''b.DNG'']]),
      ([lit ''d'', lit ''t2''], [[lit ''d'', lit ''t2'', lit ''c.dng'']])]
   \<and> ([lit ''d'', lit ''t1''],
       [[lit ''d'', lit ''t1'', lit ''a.dng''], [lit ''d'', lit ''t1'', lit ''b.DNG'']])
      \<in> set (group_by_parent_dir [[lit ''d'', lit ''t1'', lit ''a.dng''],
            [lit ''d'', lit ''t1'', lit ''b.DNG''], [lit ''d'', lit ''t2'', lit ''c.dng'']])
   \<and> [lit ''d'', lit ''t1'', lit ''b.DNG'']
      \<in> set [[lit ''d'', lit ''t1'', lit ''a.dng''], [lit ''d'', lit ''t1'', lit ''b.DNG'']]
   \<and> [[lit ''d'', lit ''t1'', lit ''a.dng''], [lit ''d'', lit ''t1'', lit ''b.DNG'']] \<noteq> []
   \<and> sorted [[lit ''d'', lit ''t1'', lit ''a.dng''], [lit ''d'', lit ''t1'', lit ''b.DNG'']]
   \<and> parent [lit ''d'', lit ''t1'', lit ''b.DNG''] = [lit ''d'', lit ''t1'']
   \<and> distinct (map fst (group_by_parent_dir [[lit ''d'', lit ''t1'', lit ''a.dng''],
            [lit ''d'', lit ''t1'', lit ''b.DNG''], [lit ''d'', lit ''t2'', lit ''c.dng'']]))"
proof -
  let ?X = "[[lit ''d'', lit ''t1'', lit ''a.dng''], [lit ''d'', lit ''t1'', lit ''b.DNG''],
        [lit ''d'', lit ''t2'', lit ''c.dng'']]"
  let ?fs = "[[lit ''d'', lit ''t1'', lit ''a.dng''], [lit ''d'', lit ''t1'', lit ''b.DNG'']]"
  note p = group_by_parent_dir_partition [of ?X]
  have m: "([lit ''d'', lit ''t1''], ?fs) \<in> set (group_by_parent_dir ?X)"
    unfolding group_two_takes by simp
  have b: "[lit ''d'', lit ''t1'', lit ''b.DNG''] \<in> set ?fs" by simp
  from p have "\<forall>(d, files) \<in> set (group_by_parent_dir ?X).
        files \<noteq> [] \<and> sorted files \<and> (\<forall>f\<in>set files. parent f = d)"
    by (elim conjE)
  note 1 = bspec [OF this m, unfolded prod.case]
  then have 2: "parent [lit ''d'', lit ''t1'', lit ''b.DNG''] = [lit ''d'', lit ''t1'']"
    using b by blast
  from p have 3: "distinct (map fst (group_by_parent_dir ?X))" by (elim conjE)
  from group_two_takes m b 1 2 3 show ?thesis by (intro conjI) blast+
qed

section \<open>Properties of the export loop\<close>


lemma digits_range: "c \<in> set (digits n) \<Longrightarrow> 48 \<le> c \<and> c \<le> 57"
proof (induction n rule: digits.induct)
  case (1 n)
  show ?case
  proof (cases "n < 10")
    case True
    with 1(2) show ?thesis by (simp add: digits.simps [of n])
  next
    case False
    with 1(2) have "c \<in> set (digits (n div 10)) \<or> c = 48 + n mod 10"
      by (auto simp: digits.simps [of n])
    then show ?thesis
    proof
      assume "c \<in> set (digits (n div 10))"
      with 1(1) False show ?thesis by simp
    next
      assume "c = 48 + n mod 10"
      then show ?thesis by simp
    qed
  qed
qed

lemma dec_value_snoc: "dec_value (s @ [c]) = 10 * dec_value s + (c - 48)"
  by (simp add: dec_value_def)

lemma dec_value_digits: "dec_value (digits n) = n"
proof (induction n rule: digits.induct)
  case (1 n)
  show ?case
  proof (cases "n < 10")
    case True
    then show ?thesis by (simp add: digits.simps [of n] dec_value_def)
  next
    case False
    with 1 have "dec_value (digits (n div 10)) = n div 10" by simp
    with False show ?thesis by (simp add: digits.simps [of n] dec_value_snoc)
  qed
qed

lemma dec_value_zeros: "foldl (\<lambda>a c. 10 * a + (c - 48)) 0 (replicate k 48) = (0::nat)"
  by (induction k) simp_all

lemma dec_value_format_06d: "dec_value (format_06d n) = n"
  using dec_value_digits [of n] by (simp add: format_06d_def dec_value_def dec_value_zeros)

lemma format_06d_inj: "format_06d m = format_06d n \<Longrightarrow> m = n"
  by (metis dec_value_format_06d)

lemma format_06d_range: "c \<in> set (format_06d n) \<Longrightarrow> 48 \<le> c \<and> c \<le> 57"
  using digits_range [of c n] by (auto simp: format_06d_def)

lemma length_format_06d_ge: "6 \<le> length (format_06d n)"
  by (simp add: format_06d_def)

lemma digits_nonempty: "digits n \<noteq> []"
  by (subst digits.simps) simp

lemma length_digits_le: "n < 10 ^ k \<Longrightarrow> 0 < k \<Longrightarrow> length (digits n) \<le> k"
proof (induction n arbitrary: k rule: digits.induct)
  case (1 n)
  show ?case
  proof (cases "n < 10")
    case True
    with 1(3) show ?thesis by (simp add: digits.simps [of n])
  next
    case False
    from 1(3) obtain j where k: "k = Suc j" by (cases k) auto
    from False 1(2) k have "0 < j" by (cases j) auto
    moreover from 1(2) k have "n div 10 < 10 ^ j" by (simp add: less_mult_imp_div_less mult.commute)
    ultimately have "length (digits (n div 10)) \<le> j" using 1(1) False by simp
    with False k show ?thesis by (simp add: digits.simps [of n])
  qed
qed

lemma length_format_06d: "n < 1000000 \<Longrightarrow> length (format_06d n) = 6"
  using length_digits_le [of n 6] by (simp add: format_06d_def)

lemma split_last_sep:
  "xs @ c # x = ys @ c # y \<Longrightarrow> c \<notin> set x \<Longrightarrow> c \<notin> set y \<Longrightarrow> x = y"
proof (induction xs arbitrary: ys)
  case Nil
  then show ?case by (cases ys) auto
next
  case (Cons a xs)
  then show ?case by (cases ys) auto
qed

lemma split_sep_none: "c \<notin> set s \<Longrightarrow> split_sep c s = [s]"
  by (induction s) auto

lemma joinpath_plain:
  "47 \<notin> set s \<Longrightarrow> s \<noteq> [] \<Longrightarrow> s \<noteq> [46] \<Longrightarrow> joinpath base s = base @ [s]"
  by (cases s) (auto simp: joinpath_def components_def split_sep_none)


lemma lit_seps: "lit ''_'' = [95]" "lit ''.jpg'' = [46, 106, 112, 103]"
  by (simp_all add: lit_def)

lemma safe_name_no_slash:
  assumes "\<not> isalnum 47"
  shows "47 \<notin> set (safe_name isalnum s)"
proof (cases "strip s = []")
  case True
  then show ?thesis by (simp add: safe_name_blank lit_dataset)
next
  case False
  from assms have "47 \<notin> set (map (\<lambda>c. if allowed isalnum c then c else 95) (strip s))"
    by (auto simp: allowed_def)
  with set_collapse_spaces show ?thesis
    unfolding safe_name_nonblank [OF False] by blast
qed

lemma out_path_of_plain:
  assumes "\<not> str_isalnum E 47"
  shows "out_path_of E images_dir d i =
           images_dir @ [safe_name (str_isalnum E) (name d) @ 95 # format_06d i @ [46, 106, 112, 103]]"
proof -
  let ?nm = "safe_name (str_isalnum E) (name d) @ 95 # format_06d i @ [46, 106, 112, 103]"
  have "47 \<notin> set (format_06d i)" using format_06d_range [of 47 i] by auto
  with safe_name_no_slash [of "str_isalnum E", OF assms] have 1: "47 \<notin> set ?nm" by simp
  have 2: "?nm \<noteq> []" by simp
  have "length ?nm \<noteq> 1" by simp
  then have 3: "?nm \<noteq> [46]" by (metis length_Cons list.size(3) One_nat_def)
  from joinpath_plain [OF 1 2 3] show ?thesis by (simp add: out_path_of_def lit_seps)
qed

lemma out_path_of_inj:
  assumes "\<not> str_isalnum E 47"
    and "out_path_of E images_dir d i = out_path_of E images_dir d' j"
  shows "i = j"
proof -
  from assms(2) have e: "safe_name (str_isalnum E) (name d) @ 95 # (format_06d i @ [46, 106, 112, 103])
      = safe_name (str_isalnum E) (name d') @ 95 # (format_06d j @ [46, 106, 112, 103])"
    by (simp add: out_path_of_plain [OF assms(1)])
  have "95 \<notin> set (format_06d i @ [46, 106, 112, 103])" "95 \<notin> set (format_06d j @ [46, 106, 112, 103])"
    using format_06d_range [of 95 i] format_06d_range [of 95 j] by auto
  from split_last_sep [OF e this] have "format_06d i = format_06d j" by simp
  then show ?thesis by (rule format_06d_inj)
qed

lemma export_loop_files_ok:
  "export_loop_files E A cli imd seq fs st = (st', None) \<Longrightarrow>
     export_index st' = export_index st + length fs \<and>
     exported st' = exported st @
       map (\<lambda>(i, f). joinpath imd (seq @ lit ''_'' @ format_06d i @ lit ''.jpg''))
         (enumerate (Suc (export_index st)) fs)"
proof (induction fs arbitrary: st)
  case Nil
  then show ?case by simp
next
  case (Cons f fs)
  let ?idx = "Suc (export_index st)"
  let ?out = "joinpath imd (seq @ lit ''_'' @ format_06d ?idx @ lit ''.jpg'')"
  from Cons.prems obtain st3 where
    r: "export_loop_files E A cli imd seq fs st3 = (st', None)"
    and i: "export_index st3 = ?idx" and x: "exported st3 = exported st @ [?out]"
    by (auto simp: Let_def split: proc_result.splits if_splits)
  from Cons.IH [OF r] i x show ?case by simp
qed

lemma outputs_Pair:
  "outputs E imd (map (Pair d) fs) s =
     map (\<lambda>(i, f). out_path_of E imd d i) (enumerate (Suc s) fs)"
  unfolding outputs_def by (induction fs arbitrary: s) simp_all

lemma outputs_append:
  "outputs E imd (js @ ks) s = outputs E imd js s @ outputs E imd ks (s + length js)"
  by (simp add: outputs_def enumerate_append_eq)

lemma jobs_Cons: "jobs ((d, fs) # G) = map (Pair d) fs @ jobs G"
  by (simp add: jobs_def)

lemma export_loop_groups_ok:
  "export_loop_groups E A cli imd G st = (st', None) \<Longrightarrow>
     export_index st' = export_index st + length (jobs G) \<and>
     exported st' = exported st @ outputs E imd (jobs G) (export_index st)"
proof (induction G arbitrary: st)
  case Nil
  then show ?case by (simp add: jobs_def outputs_def)
next
  case (Cons g G)
  obtain d fs where g: "g = (d, fs)" by (cases g)
  from Cons.prems obtain st1 where
    1: "export_loop_files E A cli imd (safe_name (str_isalnum E) (name d)) fs st = (st1, None)"
    and 2: "export_loop_groups E A cli imd G st1 = (st', None)"
    by (auto simp: g split: prod.splits option.splits)
  from export_loop_files_ok [OF 1]
  have a: "export_index st1 = export_index st + length fs"
    and b: "exported st1 = exported st @ outputs E imd (map (Pair d) fs) (export_index st)"
    by (simp_all add: outputs_Pair out_path_of_def)
  from Cons.IH [OF 2] a b show ?case
    by (simp add: g jobs_Cons outputs_append)
qed

lemma distinct_outputs:
  assumes "\<not> str_isalnum E 47"
  shows "distinct (outputs E imd js s)"
proof -
  let ?f = "\<lambda>(idx, (parent_dir, f)). out_path_of E imd parent_dir idx"
  have d: "distinct (map fst (enumerate (Suc s) js))" by simp
  have d': "distinct (enumerate (Suc s) js)" by simp
  have "inj_on ?f (set (enumerate (Suc s) js))"
  proof (rule inj_onI)
    fix x y assume x: "x \<in> set (enumerate (Suc s) js)" and y: "y \<in> set (enumerate (Suc s) js)"
      and e: "?f x = ?f y"
    from e have "fst x = fst y"
      by (cases x; cases y) (auto dest: out_path_of_inj [OF assms])
    moreover from d have "inj_on fst (set (enumerate (Suc s) js))" by (simp only: distinct_map)
    ultimately show "x = y" using x y by (meson inj_onD)
  qed
  with d' show ?thesis by (simp add: outputs_def distinct_map)
qed

lemma length_jobs_group: "length (jobs (group_by_parent_dir dngs)) = length dngs"
proof -
  have "\<And>G. length (jobs G) = length (concat (map snd G))"
    by (induct_tac G) (auto simp: jobs_def)
  then have "length (jobs (group_by_parent_dir dngs)) = size (mset (concat (map snd (group_by_parent_dir dngs))))"
    by simp
  also have "\<dots> = size (mset dngs)" by (simp only: group_mset)
  finally show ?thesis by simp
qed


lemma export_loop_files_all_ok:
  "(\<forall>c. subprocess_run E c = Completed) \<Longrightarrow>
     snd (export_loop_files E A cli imd seq fs st) = None"
  by (induction fs arbitrary: st) (simp_all add: Let_def run_darktable_export_def)

lemma export_loop_groups_all_ok:
  "(\<forall>c. subprocess_run E c = Completed) \<Longrightarrow>
     snd (export_loop_groups E A cli imd G st) = None"
proof (induction G arbitrary: st)
  case Nil
  show ?case by simp
next
  case (Cons g G)
  obtain d fs where g: "g = (d, fs)" by (cases g)
  from export_loop_files_all_ok [OF Cons.prems, of A cli imd "safe_name (str_isalnum E) (name d)" fs st]
  obtain st1 where "export_loop_files E A cli imd (safe_name (str_isalnum E) (name d)) fs st = (st1, None)"
    by (metis prod.collapse)
  with Cons.IH [OF Cons.prems, of st1] show ?case by (simp add: g)
qed

lemma runs_append: "runs (xs @ ys) = runs xs @ runs ys"
  by (induction xs rule: runs.induct) simp_all

lemma export_loop_files_runs:
  "export_loop_files E A cli imd seq fs st = (st', None) \<Longrightarrow>
     runs (events st') = runs (events st) @
       map (\<lambda>(i, f). darktable_cmd cli f
                        (joinpath imd (seq @ lit ''_'' @ format_06d i @ lit ''.jpg''))
                        (arg_style A) (arg_quality A) (arg_max_long_edge A))
         (enumerate (Suc (export_index st)) fs)"
proof (induction fs arbitrary: st)
  case Nil
  then show ?case by simp
next
  case (Cons f fs)
  let ?idx = "Suc (export_index st)"
  let ?c = "darktable_cmd cli f (joinpath imd (seq @ lit ''_'' @ format_06d ?idx @ lit ''.jpg''))
              (arg_style A) (arg_quality A) (arg_max_long_edge A)"
  from Cons.prems obtain st3 where
    r: "export_loop_files E A cli imd seq fs st3 = (st', None)"
    and i: "export_index st3 = ?idx" and e: "runs (events st3) = runs (events st) @ [?c]"
    by (cases "?idx mod 50 = 0")
       (auto simp: Let_def runs_append split: proc_result.splits)
  from Cons.IH [OF r] i e show ?case by simp
qed

lemma commands_Pair:
  "commands E A cli imd (map (Pair d) fs) s =
     map (\<lambda>(i, f). darktable_cmd cli f (out_path_of E imd d i)
                      (arg_style A) (arg_quality A) (arg_max_long_edge A))
       (enumerate (Suc s) fs)"
  unfolding commands_def by (induction fs arbitrary: s) simp_all

lemma commands_append:
  "commands E A cli imd (js @ ks) s =
     commands E A cli imd js s @ commands E A cli imd ks (s + length js)"
  by (simp add: commands_def enumerate_append_eq)

lemma export_loop_groups_runs:
  "export_loop_groups E A cli imd G st = (st', None) \<Longrightarrow>
     runs (events st') = runs (events st) @ commands E A cli imd (jobs G) (export_index st)"
proof (induction G arbitrary: st)
  case Nil
  then show ?case by (simp add: jobs_def commands_def)
next
  case (Cons g G)
  obtain d fs where g: "g = (d, fs)" by (cases g)
  from Cons.prems obtain st1 where
    1: "export_loop_files E A cli imd (safe_name (str_isalnum E) (name d)) fs st = (st1, None)"
    and 2: "export_loop_groups E A cli imd G st1 = (st', None)"
    by (auto simp: g split: prod.splits option.splits)
  from export_loop_files_ok [OF 1] have a: "export_index st1 = export_index st + length fs"
    by simp
  from export_loop_files_runs [OF 1]
  have b: "runs (events st1) = runs (events st) @
      commands E A cli imd (map (Pair d) fs) (export_index st)"
    by (simp add: commands_Pair out_path_of_def)
  from Cons.IH [OF 2] a b show ?case
    by (simp add: g jobs_Cons commands_append)
qed

lemma snd_jobs: "map snd (jobs G) = concat (map snd G)"
  by (induction G) (auto simp: jobs_def comp_def)

lemma jobs_parent:
  "list_all (\<lambda>(d, f). parent f = d) (jobs (group_by_parent_dir dngs))"
proof -
  have "\<And>G. (\<forall>(d, fs)\<in>set G. \<forall>f\<in>set fs. parent f = d) \<Longrightarrow>
      list_all (\<lambda>(d, f). parent f = d) (jobs G)"
    by (auto simp: jobs_def list_all_iff)
  moreover have "\<forall>(d, fs)\<in>set (group_by_parent_dir dngs). \<forall>f\<in>set fs. parent f = d"
    using group_members [of _ _ dngs] by blast
  ultimately show ?thesis by blast
qed

lemma mset_jobs: "mset (map snd (jobs (group_by_parent_dir dngs))) = mset dngs"
  by (simp only: snd_jobs group_mset)

text \<open>
  Claim C1. When the export loop runs to its end over the groups of \<open>N\<close> discovered
  files, starting with the counter at 0: the counter ends at \<open>N\<close>; the files are taken
  in group-then-file order, each discovered file once and each under the directory of its
  group; the file at position \<open>idx\<close> of that order, counted from 1, is the input of the
  converter process number \<open>idx\<close>, and the destination of that process, which is also
  the path recorded as exported, is the images directory joined with the sanitised name
  of the group's directory, an underscore, \<open>idx\<close> zero-padded to six digits and
  \<open>.jpg\<close>; the counter so runs through exactly 1, 2, ..., \<open>N\<close>; the padded field
  denotes the counter and has six digits (more only from one million on); and, \<open>/\<close>
  not being alphanumeric, the exported paths are pairwise distinct.
\<close>

theorem export_indices_and_names:
  assumes "export_loop_groups E A cli images_dir (group_by_parent_dir dngs)
             \<lparr>export_index = 0, exported = [], events = evs\<rparr> = (st', None)"
  shows "export_index st' = length dngs
       \<and> exported st' =
           map (\<lambda>(idx, (parent_dir, f)).
                  joinpath images_dir
                    (safe_name (str_isalnum E) (name parent_dir) @ lit ''_'' @ format_06d idx @
                     lit ''.jpg''))
             (enumerate 1 (jobs (group_by_parent_dir dngs)))
       \<and> runs (events st') = runs evs @
           map (\<lambda>(idx, (parent_dir, f)).
                  darktable_cmd cli f
                    (joinpath images_dir
                       (safe_name (str_isalnum E) (name parent_dir) @ lit ''_'' @
                        format_06d idx @ lit ''.jpg''))
                    (arg_style A) (arg_quality A) (arg_max_long_edge A))
             (enumerate 1 (jobs (group_by_parent_dir dngs)))
       \<and> map snd (jobs (group_by_parent_dir dngs)) = concat (map snd (group_by_parent_dir dngs))
       \<and> list_all (\<lambda>(parent_dir, f). parent f = parent_dir) (jobs (group_by_parent_dir dngs))
       \<and> mset (map snd (jobs (group_by_parent_dir dngs))) = mset dngs
       \<and> map fst (enumerate 1 (jobs (group_by_parent_dir dngs))) = [1 ..< Suc (length dngs)]
       \<and> (\<forall>idx. dec_value (format_06d idx) = idx \<and> 6 \<le> length (format_06d idx)
              \<and> (idx < 1000000 \<longrightarrow> length (format_06d idx) = 6))
       \<and> (\<not> str_isalnum E 47 \<longrightarrow> distinct (exported st'))"
proof -
  let ?G = "group_by_parent_dir dngs"
  from export_loop_groups_ok [OF assms]
  have i: "export_index st' = length (jobs ?G)" and x: "exported st' = outputs E images_dir (jobs ?G) 0"
    by simp_all
  from i have 1: "export_index st' = length dngs" by (simp only: length_jobs_group)
  from x have 2: "exported st' =
           map (\<lambda>(idx, (parent_dir, f)).
                  joinpath images_dir
                    (safe_name (str_isalnum E) (name parent_dir) @ lit ''_'' @ format_06d idx @
                     lit ''.jpg''))
             (enumerate 1 (jobs ?G))"
    by (simp add: outputs_def out_path_of_def)
  from export_loop_groups_runs [OF assms]
  have 6: "runs (events st') = runs evs @
           map (\<lambda>(idx, (parent_dir, f)).
                  darktable_cmd cli f
                    (joinpath images_dir
                       (safe_name (str_isalnum E) (name parent_dir) @ lit ''_'' @
                        format_06d idx @ lit ''.jpg''))
                    (arg_style A) (arg_quality A) (arg_max_long_edge A))
             (enumerate 1 (jobs ?G))"
    by (simp add: commands_def out_path_of_def)
  note 7 = snd_jobs [of ?G] and 8 = jobs_parent [of dngs] and 9 = mset_jobs [of dngs]
  have 3: "map fst (enumerate 1 (jobs ?G)) = [1 ..< Suc (length dngs)]"
    by (simp only: map_fst_enumerate length_jobs_group) simp
  have 4: "\<forall>idx. dec_value (format_06d idx) = idx \<and> 6 \<le> length (format_06d idx)
              \<and> (idx < 1000000 \<longrightarrow> length (format_06d idx) = 6)"
    by (simp add: dec_value_format_06d length_format_06d_ge length_format_06d)
  have 5: "\<not> str_isalnum E 47 \<longrightarrow> distinct (exported st')"
    using distinct_outputs [of E images_dir "jobs ?G" 0] x by simp
  from 1 2 6 7 8 9 3 4 5 show ?thesis by blast
qed

lemma safe_name_t: "safe_name ascii_isalnum [116, 49] = [116, 49]" "safe_name ascii_isalnum [116, 50] = [116, 50]"
  "safe_name ascii_isalnum [100] = [100]"
  by (simp_all add: safe_name_def strip_def isspace_def allowed_def ascii_isalnum_def
        collapse_spaces.simps [of "[116, 49]"] collapse_spaces.simps [of "[116, 50]"]
        collapse_spaces.simps [of "[100]"])

lemma replicate_5: "replicate 5 x = [x, x, x, x, x]"
  by (simp add: numeral_eq_Suc)

lemma digits_small: "digits (Suc 0) = [49]" "digits 2 = [50]" "digits 3 = [51]"
  by (simp_all add: digits.simps [of "Suc 0"] digits.simps [of 2] digits.simps [of 3])

lemma format_06d_small:
  "format_06d (Suc 0) = [48, 48, 48, 48, 48, 49]" "format_06d 2 = [48, 48, 48, 48, 48, 50]"
  "format_06d 3 = [48, 48, 48, 48, 48, 51]"
  by (simp_all add: format_06d_def digits_small replicate_5)


lemma format_06d_Suc:
  "format_06d (Suc (Suc 0)) = [48, 48, 48, 48, 48, 50]"
  "format_06d (Suc (Suc (Suc 0))) = [48, 48, 48, 48, 48, 51]"
  using format_06d_small(2,3) by (simp_all only: numeral_2_eq_2 numeral_3_eq_3)

lemma lit_outputs:
  "lit ''t1_000001.jpg'' = [116, 49, 95, 48, 48, 48, 48, 48, 49, 46, 106, 112, 103]"
  "lit ''t1_000002.jpg'' = [116, 49, 95, 48, 48, 48, 48, 48, 50, 46, 106, 112, 103]"
  "lit ''t2_000003.jpg'' = [116, 50, 95, 48, 48, 48, 48, 48, 51, 46, 106, 112, 103]"
  by (simp_all add: lit_def)

lemma group_sorted_takes:
  "group_by_parent_dir sorted_takes =
     [([lit ''d'', lit ''t1''],
       [[lit ''d'', lit ''t1'', lit ''a.dng''], [lit ''d'', lit ''t1'', lit ''b.DNG'']]),
      ([lit ''d'', lit ''t2''], [[lit ''d'', lit ''t2'', lit ''c.dng'']])]"
  unfolding sorted_takes_def by (rule group_two_takes)

lemma sample_outputs:
  "map (\<lambda>(idx, (parent_dir, f)).
          joinpath sample_images_dir
            (safe_name ascii_isalnum (name parent_dir) @ lit ''_'' @ format_06d idx @ lit ''.jpg''))
     (enumerate 1 (jobs (group_by_parent_dir sorted_takes))) =
   [sample_images_dir @ [lit ''t1_000001.jpg''], sample_images_dir @ [lit ''t1_000002.jpg''],
    sample_images_dir @ [lit ''t2_000003.jpg'']]"
  unfolding group_sorted_takes
  by (simp add: jobs_def name_def lit_chars lit_seps lit_outputs safe_name_t format_06d_small
        format_06d_Suc joinpath_def components_def)

lemma sample_commands:
  "map (\<lambda>(idx, (parent_dir, f)).
          darktable_cmd cli f
            (joinpath sample_images_dir
               (safe_name ascii_isalnum (name parent_dir) @ lit ''_'' @ format_06d idx @ lit ''.jpg''))
            s q m)
     (enumerate 1 (jobs (group_by_parent_dir sorted_takes))) =
   [darktable_cmd cli [lit ''d'', lit ''t1'', lit ''a.dng'']
      (sample_images_dir @ [lit ''t1_000001.jpg'']) s q m,
    darktable_cmd cli [lit ''d'', lit ''t1'', lit ''b.DNG'']
      (sample_images_dir @ [lit ''t1_000002.jpg'']) s q m,
    darktable_cmd cli [lit ''d'', lit ''t2'', lit ''c.dng'']
      (sample_images_dir @ [lit ''t2_000003.jpg'']) s q m]"
  unfolding group_sorted_takes
  by (simp add: jobs_def name_def lit_chars lit_seps lit_outputs safe_name_t format_06d_small
        format_06d_Suc joinpath_def components_def)

theorem export_indices_and_names_witness:
  "export_loop_groups (sample_env two_takes (\<lambda>c. Completed)) sample_args (lit ''/usr/bin/darktable-cli'')
       sample_images_dir (group_by_parent_dir sorted_takes)
       \<lparr>export_index = 0, exported = [], events = []\<rparr>
     = (fst (export_loop_groups (sample_env two_takes (\<lambda>c. Completed)) sample_args
               (lit ''/usr/bin/darktable-cli'') sample_images_dir (group_by_parent_dir sorted_takes)
               \<lparr>export_index = 0, exported = [], events = []\<rparr>), None)
   \<and> \<not> str_isalnum (sample_env two_takes (\<lambda>c. Completed)) 47
   \<and> exported (fst (export_loop_groups (sample_env two_takes (\<lambda>c. Completed)) sample_args
               (lit ''/usr/bin/darktable-cli'') sample_images_dir (group_by_parent_dir sorted_takes)
               \<lparr>export_index = 0, exported = [], events = []\<rparr>))
       = [sample_images_dir @ [lit ''t1_000001.jpg''], sample_images_dir @ [lit ''t1_000002.jpg''],
          sample_images_dir @ [lit ''t2_000003.jpg'']]
   \<and> runs (events (fst (export_loop_groups (sample_env two_takes (\<lambda>c. Completed)) sample_args
               (lit ''/usr/bin/darktable-cli'') sample_images_dir (group_by_parent_dir sorted_takes)
               \<lparr>export_index = 0, exported = [], events = []\<rparr>)))
       = [darktable_cmd (lit ''/usr/bin/darktable-cli'') [lit ''d'', lit ''t1'', lit ''a.dng'']
            (sample_images_dir @ [lit ''t1_000001.jpg'']) None 95 None,
          darktable_cmd (lit ''/usr/bin/darktable-cli'') [lit ''d'', lit ''t1'', lit ''b.DNG'']
            (sample_images_dir @ [lit ''t1_000002.jpg'']) None 95 None,
          darktable_cmd (lit ''/usr/bin/darktable-cli'') [lit ''d'', lit ''t2'', lit ''c.dng'']
            (sample_images_dir @ [lit ''t2_000003.jpg'']) None 95 None]
   \<and> distinct (exported (fst (export_loop_groups (sample_env two_takes (\<lambda>c. Completed)) sample_args
               (lit ''/usr/bin/darktable-cli'') sample_images_dir (group_by_parent_dir sorted_takes)
               \<lparr>export_index = 0, exported = [], events = []\<rparr>)))
   \<and> (1::nat) < 1000000 \<and> length (format_06d 1) = 6"
proof -
  let ?E = "sample_env two_takes (\<lambda>c. Completed)"
  let ?r = "export_loop_groups ?E sample_args (lit ''/usr/bin/darktable-cli'')
              sample_images_dir (group_by_parent_dir sorted_takes)
              \<lparr>export_index = 0, exported = [], events = []\<rparr>"
  have c: "\<forall>c. subprocess_run ?E c = Completed" by (simp add: sample_env_def)
  have h: "?r = (fst ?r, None)"
    using export_loop_groups_all_ok [OF c, of sample_args "lit ''/usr/bin/darktable-cli''"
        sample_images_dir "group_by_parent_dir sorted_takes"
        "\<lparr>export_index = 0, exported = [], events = []\<rparr>"]
    by (metis prod.collapse)
  have a: "str_isalnum ?E = ascii_isalnum" by (simp add: sample_env_def)
  have n: "\<not> str_isalnum ?E 47" by (simp add: a ascii_isalnum_def)
  have g: "arg_style sample_args = None" "arg_quality sample_args = 95"
    "arg_max_long_edge sample_args = None" by (simp_all add: sample_args_def)
  note t = export_indices_and_names [OF h]
  from t have x: "exported (fst ?r) =
       [sample_images_dir @ [lit ''t1_000001.jpg''], sample_images_dir @ [lit ''t1_000002.jpg''],
        sample_images_dir @ [lit ''t2_000003.jpg'']]"
    unfolding a sample_outputs by (elim conjE)
  from t have "runs (events (fst ?r)) = runs [] @
       [darktable_cmd (lit ''/usr/bin/darktable-cli'') [lit ''d'', lit ''t1'', lit ''a.dng'']
            (sample_images_dir @ [lit ''t1_000001.jpg'']) None 95 None,
          darktable_cmd (lit ''/usr/bin/darktable-cli'') [lit ''d'', lit ''t1'', lit ''b.DNG'']
            (sample_images_dir @ [lit ''t1_000002.jpg'']) None 95 None,
          darktable_cmd (lit ''/usr/bin/darktable-cli'') [lit ''d'', lit ''t2'', lit ''c.dng'']
            (sample_images_dir @ [lit ''t2_000003.jpg'']) None 95 None]"
    unfolding a g sample_commands by (elim conjE)
  then have u: "runs (events (fst ?r)) =
       [darktable_cmd (lit ''/usr/bin/darktable-cli'') [lit ''d'', lit ''t1'', lit ''a.dng'']
            (sample_images_dir @ [lit ''t1_000001.jpg'']) None 95 None,
          darktable_cmd (lit ''/usr/bin/darktable-cli'') [lit ''d'', lit ''t1'', lit ''b.DNG'']
            (sample_images_dir @ [lit ''t1_000002.jpg'']) None 95 None,
          darktable_cmd (lit ''/usr/bin/darktable-cli'') [lit ''d'', lit ''t2'', lit ''c.dng'']
            (sample_images_dir @ [lit ''t2_000003.jpg'']) None 95 None]"
    by (simp only: runs.simps append_Nil)
  from t n have d: "distinct (exported (fst ?r))" by blast
  from t have l: "length (format_06d 1) = 6" by simp
  from h n x u d l show ?thesis by simp
qed

section \<open>Properties of a run\<close>

lemma main_not_dir:
  "\<not> path_exists E (expanduser_resolve E (arg_path A)) \<or>
   \<not> path_is_dir E (expanduser_resolve E (arg_path A)) \<Longrightarrow>
   main E A = ([], Some (SystemExit (lit ''Not a directory: '' @
                 str_of_path (expanduser_resolve E (arg_path A)))))"
  by (auto simp: main_def Let_def)

lemma main_dangerous:
  "path_exists E (expanduser_resolve E (arg_path A)) \<Longrightarrow>
   path_is_dir E (expanduser_resolve E (arg_path A)) \<Longrightarrow>
   is_dangerous_directory E (expanduser_resolve E (arg_path A)) \<Longrightarrow>
   main E A = ([], Some (SystemExit (refusal (expanduser_resolve E (arg_path A)))))"
  by (simp add: main_def Let_def refusal_def)

lemma main_no_tool:
  "path_exists E (expanduser_resolve E (arg_path A)) \<Longrightarrow>
   path_is_dir E (expanduser_resolve E (arg_path A)) \<Longrightarrow>
   \<not> is_dangerous_directory E (expanduser_resolve E (arg_path A)) \<Longrightarrow>
   which_or_die E (lit ''darktable-cli'') = Inl ex \<Longrightarrow>
   main E A = ([Which (lit ''darktable-cli'')], Some ex)"
  by (simp add: main_def Let_def)

lemma main_no_inputs:
  "preflight_ok E A cli \<Longrightarrow> iter_dngs E (expanduser_resolve E (arg_path A)) = [] \<Longrightarrow>
   main E A = ([Which (lit ''darktable-cli''), Rglob (expanduser_resolve E (arg_path A))],
               Some (SystemExit (lit ''No DNG files found under: '' @
                       str_of_path (expanduser_resolve E (arg_path A)))))"
  by (simp add: main_def Let_def preflight_ok_def)

lemma main_dry_run:
  "preflight_ok E A cli \<Longrightarrow> iter_dngs E (expanduser_resolve E (arg_path A)) \<noteq> [] \<Longrightarrow>
   arg_dry_run A \<Longrightarrow>
   main E A = (preamble E A @ [Eprint (lit ''Dry run only, no files will be written.'')], None)"
  by (simp add: main_def Let_def preflight_ok_def preamble_def job_dir_of_def images_dir_of_def
        job_name_of_def)

lemma main_runs_job:
  "preflight_ok E A cli \<Longrightarrow> iter_dngs E (expanduser_resolve E (arg_path A)) \<noteq> [] \<Longrightarrow>
   \<not> arg_dry_run A \<Longrightarrow>
   main E A =
     main_job E A cli (expanduser_resolve E (arg_path A))
       (iter_dngs E (expanduser_resolve E (arg_path A)))
       (group_by_parent_dir (iter_dngs E (expanduser_resolve E (arg_path A))))
       (time_strftime E) (job_name_of E A) (job_dir_of E A) (images_dir_of E A) (preamble E A)"
  by (simp add: main_def Let_def preflight_ok_def preamble_def job_dir_of_def images_dir_of_def
        job_name_of_def)

lemma announce_quiet: "filter is_mutation (announce A d dngs G jd imd) = []"
  by (simp add: announce_def split: option.splits)

lemma preamble_quiet: "filter is_mutation (preamble E A) = []"
  by (simp add: preamble_def announce_quiet)

lemma artifacts_append: "artifacts (xs @ ys) = artifacts xs @ artifacts ys"
  by (induction xs rule: artifacts.induct) simp_all

lemma announce_artifacts: "artifacts (announce A d dngs G jd imd) = []"
  by (simp add: announce_def artifacts_append split: option.splits)

lemma preamble_artifacts: "artifacts (preamble E A) = []"
  by (simp add: preamble_def announce_artifacts)


lemma export_loop_files_events_ok:
  "export_loop_files E A cli imd seq fs st = (st', None) \<Longrightarrow>
     \<exists>levs. events st' = events st @ levs \<and> list_all (conversion_ok E) levs
         \<and> artifacts levs = replicate (length fs) ImageFile"
proof (induction fs arbitrary: st)
  case Nil
  then show ?case by simp
next
  case (Cons f fs)
  let ?c = "darktable_cmd cli f
              (joinpath imd (seq @ lit ''_'' @ format_06d (export_index st + 1) @ lit ''.jpg''))
              (arg_style A) (arg_quality A) (arg_max_long_edge A)"
  from Cons.prems have ok: "subprocess_run E ?c = Completed"
    by (auto simp: Let_def run_darktable_export_def split: proc_result.splits)
  from Cons.prems ok obtain st3 l where
    r: "export_loop_files E A cli imd seq fs st3 = (st', None)"
    and e: "events st3 = events st @ Run ?c # l" and l: "list_all (conversion_ok E) l" "artifacts l = []"
    by (cases "(export_index st + 1) mod 50 = 0")
       (auto simp: Let_def run_darktable_export_def)
  from Cons.IH [OF r] obtain levs where
    "events st' = events st3 @ levs" "list_all (conversion_ok E) levs"
    "artifacts levs = replicate (length fs) ImageFile" by blast
  with e l ok have "events st' = events st @ (Run ?c # l @ levs)
      \<and> list_all (conversion_ok E) (Run ?c # l @ levs)
      \<and> artifacts (Run ?c # l @ levs) = replicate (length (f # fs)) ImageFile"
    by (simp add: artifacts_append)
  then show ?case by blast
qed

lemma export_loop_files_events_fail:
  "export_loop_files E A cli imd seq fs st = (st', Some ex) \<Longrightarrow>
     \<exists>pre f out err. events st' = events st @ pre @
           [Run (darktable_cmd cli f out (arg_style A) (arg_quality A) (arg_max_long_edge A))]
         \<and> list_all (conversion_ok E) pre \<and> f \<in> set fs
         \<and> subprocess_run E (darktable_cmd cli f out (arg_style A) (arg_quality A)
               (arg_max_long_edge A)) = CalledProcessError err
         \<and> ex = SystemExit (failure_message f err)"
proof (induction fs arbitrary: st)
  case Nil
  then show ?case by simp
next
  case (Cons f fs)
  let ?out = "joinpath imd (seq @ lit ''_'' @ format_06d (export_index st + 1) @ lit ''.jpg'')"
  let ?c = "darktable_cmd cli f ?out (arg_style A) (arg_quality A) (arg_max_long_edge A)"
  show ?case
  proof (cases "subprocess_run E ?c")
    case (CalledProcessError err)
    with Cons.prems have "events st' = events st @ [] @ [Run ?c]"
      and "ex = SystemExit (failure_message f err)"
      by (auto simp: Let_def run_darktable_export_def failure_message_def)
    with CalledProcessError show ?thesis
      by (intro exI [of _ "[]"] exI [of _ f] exI [of _ ?out] exI [of _ err]) simp
  next
    case Completed
    with Cons.prems obtain st3 l where
      r: "export_loop_files E A cli imd seq fs st3 = (st', Some ex)"
      and e: "events st3 = events st @ Run ?c # l" and l: "list_all (conversion_ok E) l"
      by (cases "(export_index st + 1) mod 50 = 0")
         (auto simp: Let_def run_darktable_export_def)
    from Cons.IH [OF r] obtain pre f' out err where
      p: "events st' = events st3 @ pre @
           [Run (darktable_cmd cli f' out (arg_style A) (arg_quality A) (arg_max_long_edge A))]"
      "list_all (conversion_ok E) pre" "f' \<in> set fs"
      "subprocess_run E (darktable_cmd cli f' out (arg_style A) (arg_quality A)
               (arg_max_long_edge A)) = CalledProcessError err"
      "ex = SystemExit (failure_message f' err)" by blast
    with e l Completed show ?thesis
      by (intro exI [of _ "Run ?c # l @ pre"] exI [of _ f'] exI [of _ out] exI [of _ err]) simp
  qed
qed

lemma export_loop_groups_events_ok:
  "export_loop_groups E A cli imd G st = (st', None) \<Longrightarrow>
     \<exists>levs. events st' = events st @ levs \<and> list_all (conversion_ok E) levs
         \<and> artifacts levs = replicate (length (concat (map snd G))) ImageFile"
proof (induction G arbitrary: st)
  case Nil
  then show ?case by simp
next
  case (Cons g G)
  obtain d fs where g: "g = (d, fs)" by (cases g)
  from Cons.prems obtain st1 where
    1: "export_loop_files E A cli imd (safe_name (str_isalnum E) (name d)) fs st = (st1, None)"
    and 2: "export_loop_groups E A cli imd G st1 = (st', None)"
    by (auto simp: g split: prod.splits option.splits)
  from export_loop_files_events_ok [OF 1] obtain l1 where
    a: "events st1 = events st @ l1" "list_all (conversion_ok E) l1"
       "artifacts l1 = replicate (length fs) ImageFile" by blast
  from Cons.IH [OF 2] obtain l2 where
    b: "events st' = events st1 @ l2" "list_all (conversion_ok E) l2"
       "artifacts l2 = replicate (length (concat (map snd G))) ImageFile" by blast
  from a b have "events st' = events st @ (l1 @ l2) \<and> list_all (conversion_ok E) (l1 @ l2)
      \<and> artifacts (l1 @ l2) = replicate (length (concat (map snd (g # G)))) ImageFile"
    by (simp add: g artifacts_append replicate_add)
  then show ?case by blast
qed

lemma export_loop_groups_events_fail:
  "export_loop_groups E A cli imd G st = (st', Some ex) \<Longrightarrow>
     \<exists>pre f out err. events st' = events st @ pre @
           [Run (darktable_cmd cli f out (arg_style A) (arg_quality A) (arg_max_long_edge A))]
         \<and> list_all (conversion_ok E) pre \<and> f \<in> set (concat (map snd G))
         \<and> subprocess_run E (darktable_cmd cli f out (arg_style A) (arg_quality A)
               (arg_max_long_edge A)) = CalledProcessError err
         \<and> ex = SystemExit (failure_message f err)"
proof (induction G arbitrary: st)
  case Nil
  then show ?case by simp
next
  case (Cons g G)
  obtain d fs where g: "g = (d, fs)" by (cases g)
  obtain st1 r1 where
    1: "export_loop_files E A cli imd (safe_name (str_isalnum E) (name d)) fs st = (st1, r1)"
    by (cases "export_loop_files E A cli imd (safe_name (str_isalnum E) (name d)) fs st")
  show ?case
  proof (cases r1)
    case (Some ex1)
    with 1 Cons.prems have "st' = st1" "ex = ex1" by (simp_all add: g)
    with export_loop_files_events_fail [OF 1 [unfolded Some]] show ?thesis
      by (fastforce simp: g)
  next
    case None
    with 1 Cons.prems have 2: "export_loop_groups E A cli imd G st1 = (st', Some ex)"
      by (simp add: g)
    from export_loop_files_events_ok [OF 1 [unfolded None]] obtain l1 where
      a: "events st1 = events st @ l1" "list_all (conversion_ok E) l1" by blast
    from Cons.IH [OF 2] obtain pre f out err where
      p: "events st' = events st1 @ pre @
           [Run (darktable_cmd cli f out (arg_style A) (arg_quality A) (arg_max_long_edge A))]"
      "list_all (conversion_ok E) pre" "f \<in> set (concat (map snd G))"
      "subprocess_run E (darktable_cmd cli f out (arg_style A) (arg_quality A)
               (arg_max_long_edge A)) = CalledProcessError err"
      "ex = SystemExit (failure_message f err)" by blast
    with a show ?thesis
      by (intro exI [of _ "l1 @ pre"] exI [of _ f] exI [of _ out] exI [of _ err]) (simp add: g)
  qed
qed


lemma conversion_ok_imp:
  "list_all (conversion_ok E) l \<Longrightarrow> list_all (run_ok E) l \<and> \<not> list_ex is_removal l"
proof (induction l)
  case Nil
  show ?case by simp
next
  case (Cons e l)
  then show ?case by (cases e) simp_all
qed

lemma zip_job_ok:
  "zip_job E jd zp = (zevs, Inr z) \<Longrightarrow> artifacts zevs = [ArchiveFile] \<and> list_all (run_ok E) zevs"
  by (auto simp: zip_job_def Let_def split: sum.splits if_splits)

lemma zip_job_fail:
  "zip_job E jd zp = (zevs, Inl ex) \<Longrightarrow> ex = ValueError \<and> list_all (run_ok E) zevs"
  by (auto simp: zip_job_def Let_def with_suffix_def split: sum.splits if_splits)

lemma main_job_loop_fail:
  assumes "export_loop_groups E A cli imd G
             \<lparr>export_index = 0, exported = [], events = evs @ [Mkdir imd]\<rparr> = (st, Some ex)"
  shows "main_job E A cli d dngs G ts jn jd imd evs = (events st, Some ex)"
  using assms by (simp add: main_job_def)

lemma main_job_artifacts:
  assumes "main_job E A cli d dngs G ts jn jd imd evs = (tr, None)"
  shows "artifacts tr = artifacts evs @ replicate (length (concat (map snd G))) ImageFile @
           [MetadataFile, ManifestFile] @ (if arg_zip A then [ArchiveFile] else [])"
proof -
  obtain st r where
    L: "export_loop_groups E A cli imd G
          \<lparr>export_index = 0, exported = [], events = evs @ [Mkdir imd]\<rparr> = (st, r)"
    by (cases "export_loop_groups E A cli imd G
          \<lparr>export_index = 0, exported = [], events = evs @ [Mkdir imd]\<rparr>")
  from assms L have r: "r = None" by (cases r) (simp_all add: main_job_def)
  from export_loop_groups_events_ok [OF L [unfolded r]] obtain levs where
    e: "events st = evs @ [Mkdir imd] @ levs"
    and a: "artifacts levs = replicate (length (concat (map snd G))) ImageFile" by auto
  have s: "artifacts (events st) = artifacts evs @ replicate (length (concat (map snd G))) ImageFile"
    by (simp add: e a artifacts_append)
  show ?thesis
  proof (cases "arg_zip A")
    case False
    with assms L r show ?thesis
      by (auto simp: main_job_def Let_def artifacts_append s write_job_json_def write_manifest_def)
  next
    case True
    let ?z = "zip_job E jd (joinpath (joinpath d (arg_out A)) (jn @ lit ''_'' @ ts @ lit ''.zip''))"
    obtain zevs zr where z: "?z = (zevs, zr)" by (cases ?z)
    from assms L r True z obtain zp where zr: "zr = Inr zp"
      by (cases zr) (simp_all add: main_job_def Let_def)
    from zip_job_ok [OF z [unfolded zr]] have "artifacts zevs = [ArchiveFile]" by simp
    with assms L r True z zr show ?thesis
      by (auto simp: main_job_def Let_def artifacts_append s write_job_json_def write_manifest_def)
  qed
qed

lemma main_job_trace:
  assumes "list_all (run_ok E) evs" and "\<not> list_ex is_removal evs"
  shows "list_all (run_ok E) (fst (main_job E A cli d dngs G ts jn jd imd evs))
       \<and> (\<forall>ex. snd (main_job E A cli d dngs G ts jn jd imd evs) = Some ex \<longrightarrow> ex = ValueError)
     \<or> (\<exists>tr' f out err.
           fst (main_job E A cli d dngs G ts jn jd imd evs) =
             tr' @ [Run (darktable_cmd cli f out (arg_style A) (arg_quality A) (arg_max_long_edge A))]
         \<and> list_all (run_ok E) tr'
         \<and> \<not> list_ex is_removal (fst (main_job E A cli d dngs G ts jn jd imd evs))
         \<and> f \<in> set (concat (map snd G))
         \<and> subprocess_run E (darktable_cmd cli f out (arg_style A) (arg_quality A)
               (arg_max_long_edge A)) = CalledProcessError err
         \<and> snd (main_job E A cli d dngs G ts jn jd imd evs) = Some (SystemExit (failure_message f err)))"
proof -
  obtain st r where
    L: "export_loop_groups E A cli imd G
          \<lparr>export_index = 0, exported = [], events = evs @ [Mkdir imd]\<rparr> = (st, r)"
    by (cases "export_loop_groups E A cli imd G
          \<lparr>export_index = 0, exported = [], events = evs @ [Mkdir imd]\<rparr>")
  show ?thesis
  proof (cases r)
    case (Some ex)
    from export_loop_groups_events_fail [OF L [unfolded Some]] obtain pre f out err where
      p: "events st = (evs @ [Mkdir imd]) @ pre @
           [Run (darktable_cmd cli f out (arg_style A) (arg_quality A) (arg_max_long_edge A))]"
      "list_all (conversion_ok E) pre" "f \<in> set (concat (map snd G))"
      "subprocess_run E (darktable_cmd cli f out (arg_style A) (arg_quality A)
               (arg_max_long_edge A)) = CalledProcessError err"
      "ex = SystemExit (failure_message f err)"
      unfolding loop_state.select_convs by blast
    from conversion_ok_imp [OF p(2)] assms
    have q: "list_all (run_ok E) (evs @ [Mkdir imd] @ pre)"
      "\<not> list_ex is_removal (events st)" by (simp_all add: p(1))
    from main_job_loop_fail [OF L [unfolded Some], of d dngs ts jn jd]
    have m: "main_job E A cli d dngs G ts jn jd imd evs = (events st, Some ex)" .
    have "\<exists>tr' f out err.
           fst (main_job E A cli d dngs G ts jn jd imd evs) =
             tr' @ [Run (darktable_cmd cli f out (arg_style A) (arg_quality A) (arg_max_long_edge A))]
         \<and> list_all (run_ok E) tr'
         \<and> \<not> list_ex is_removal (fst (main_job E A cli d dngs G ts jn jd imd evs))
         \<and> f \<in> set (concat (map snd G))
         \<and> subprocess_run E (darktable_cmd cli f out (arg_style A) (arg_quality A)
               (arg_max_long_edge A)) = CalledProcessError err
         \<and> snd (main_job E A cli d dngs G ts jn jd imd evs) = Some (SystemExit (failure_message f err))"
      using p q unfolding m
      by (intro exI [of _ "evs @ [Mkdir imd] @ pre"] exI [of _ f] exI [of _ out] exI [of _ err]) simp
    then show ?thesis by (rule disjI2)
  next
    case None
    from export_loop_groups_events_ok [OF L [unfolded None]] obtain levs where
      e: "events st = (evs @ [Mkdir imd]) @ levs" and c: "list_all (conversion_ok E) levs" by auto
    from conversion_ok_imp [OF c] assms have s: "list_all (run_ok E) (events st)"
      by (simp add: e)
    let ?z = "zip_job E jd (joinpath (joinpath d (arg_out A)) (jn @ lit ''_'' @ ts @ lit ''.zip''))"
    obtain zevs zr where z: "?z = (zevs, zr)" by (cases ?z)
    have zo: "list_all (run_ok E) zevs \<and> (\<forall>ex. zr = Inl ex \<longrightarrow> ex = ValueError)"
      using zip_job_ok [of E jd _ zevs] zip_job_fail [of E jd _ zevs] z by (cases zr) auto
    have "list_all (run_ok E) (fst (main_job E A cli d dngs G ts jn jd imd evs))
       \<and> (\<forall>ex. snd (main_job E A cli d dngs G ts jn jd imd evs) = Some ex \<longrightarrow> ex = ValueError)"
      using L None s z zo
      by (cases zr) (auto simp: main_job_def Let_def write_job_json_def write_manifest_def)
    then show ?thesis by (rule disjI1)
  qed
qed


lemma main_job_prefix: "\<exists>tl. fst (main_job E A cli d dngs G ts jn jd imd evs) = evs @ Mkdir imd # tl"
proof -
  obtain st r where
    L: "export_loop_groups E A cli imd G
          \<lparr>export_index = 0, exported = [], events = evs @ [Mkdir imd]\<rparr> = (st, r)"
    by (cases "export_loop_groups E A cli imd G
          \<lparr>export_index = 0, exported = [], events = evs @ [Mkdir imd]\<rparr>")
  show ?thesis
  proof (cases r)
    case (Some ex)
    from export_loop_groups_events_fail [OF L [unfolded Some]] obtain tl where
      "events st = evs @ Mkdir imd # tl" unfolding loop_state.select_convs by auto
    with main_job_loop_fail [OF L [unfolded Some], of d dngs ts jn jd] show ?thesis by simp
  next
    case None
    from export_loop_groups_events_ok [OF L [unfolded None]] obtain levs where
      e: "events st = evs @ Mkdir imd # levs" unfolding loop_state.select_convs by auto
    let ?z = "zip_job E jd (joinpath (joinpath d (arg_out A)) (jn @ lit ''_'' @ ts @ lit ''.zip''))"
    obtain zevs zr where z: "?z = (zevs, zr)" by (cases ?z)
    from L None e z show ?thesis
      by (cases zr) (auto simp: main_job_def Let_def)
  qed
qed

lemma which_or_die_cases:
  "(\<exists>m. which_or_die E tool = Inl (SystemExit (77 # m))) \<or> (\<exists>cli. which_or_die E tool = Inr cli)"
  by (auto simp: which_or_die_def lit_def split: option.splits)

lemma preamble_head: "\<exists>tl. preamble E A = Which (lit ''darktable-cli'') # tl"
  by (simp add: preamble_def)

lemma first_effect_is_lookup:
  assumes "path_exists E (expanduser_resolve E (arg_path A))"
    and "path_is_dir E (expanduser_resolve E (arg_path A))"
    and "\<not> is_dangerous_directory E (expanduser_resolve E (arg_path A))"
  shows "\<exists>evs. fst (main E A) = Which (lit ''darktable-cli'') # evs"
proof -
  from which_or_die_cases [of E "lit ''darktable-cli''"] show ?thesis
  proof (elim disjE exE)
    fix m assume "which_or_die E (lit ''darktable-cli'') = Inl (SystemExit (77 # m))"
    from main_no_tool [OF assms this] show ?thesis by simp
  next
    fix cli assume "which_or_die E (lit ''darktable-cli'') = Inr cli"
    with assms have p: "preflight_ok E A cli" by (simp add: preflight_ok_def)
    show ?thesis
    proof (cases "iter_dngs E (expanduser_resolve E (arg_path A)) = []")
      case True
      from main_no_inputs [OF p True] show ?thesis by simp
    next
      case False
      show ?thesis
      proof (cases "arg_dry_run A")
        case True
        from main_dry_run [OF p False True] preamble_head [of E A] show ?thesis by auto
      next
        case dry: False
        from main_job_prefix [of E A cli "expanduser_resolve E (arg_path A)"
            "iter_dngs E (expanduser_resolve E (arg_path A))"
            "group_by_parent_dir (iter_dngs E (expanduser_resolve E (arg_path A)))"
            "time_strftime E" "job_name_of E A" "job_dir_of E A" "images_dir_of E A" "preamble E A"]
          preamble_head [of E A]
        show ?thesis unfolding main_runs_job [OF p False dry] by auto
      qed
    qed
  qed
qed

text \<open>
  Claim C10. Whatever the search path holds: when the dataset path does not exist or is
  not a directory, the run ends with the not-a-directory error and no effect at all, so
  without looking the converter up; when it is a directory on the deny-list, the run ends
  with the refusal and no effect at all; and only when the directory passes both checks is
  the lookup of the converter the first effect of the run.
\<close>

theorem directory_checks_precede_tool_lookup:
  "(\<not> path_exists E (expanduser_resolve E (arg_path A)) \<or>
    \<not> path_is_dir E (expanduser_resolve E (arg_path A)) \<longrightarrow>
      main E A = ([], Some (SystemExit (lit ''Not a directory: '' @
                    str_of_path (expanduser_resolve E (arg_path A))))))
   \<and> (path_exists E (expanduser_resolve E (arg_path A)) \<and>
      path_is_dir E (expanduser_resolve E (arg_path A)) \<and>
      is_dangerous_directory E (expanduser_resolve E (arg_path A)) \<longrightarrow>
      main E A = ([], Some (SystemExit (refusal (expanduser_resolve E (arg_path A))))))
   \<and> (path_exists E (expanduser_resolve E (arg_path A)) \<and>
      path_is_dir E (expanduser_resolve E (arg_path A)) \<and>
      \<not> is_dangerous_directory E (expanduser_resolve E (arg_path A)) \<longrightarrow>
      (\<exists>evs. fst (main E A) = Which (lit ''darktable-cli'') # evs))"
  using main_not_dir [of E A] main_dangerous [of E A] first_effect_is_lookup [of E A]
  by blast

text \<open>
  Claim C7. When the checks pass and discovery finds no matching file, the run ends with
  the error \<open>No DNG files found under: ...\<close>; its only effects are the lookup of the
  converter and the walk, none of them a change of the file system. Nothing is assumed of
  the dry-run flag: the error fires in dry-run mode too.
\<close>

theorem no_inputs_is_fatal:
  assumes "preflight_ok E A cli" and "iter_dngs E (expanduser_resolve E (arg_path A)) = []"
  shows "main E A = ([Which (lit ''darktable-cli''), Rglob (expanduser_resolve E (arg_path A))],
                    Some (SystemExit (lit ''No DNG files found under: '' @
                            str_of_path (expanduser_resolve E (arg_path A)))))
       \<and> filter is_mutation (fst (main E A)) = []"
  by (simp add: main_no_inputs [OF assms])

text \<open>
  Claim C9. With the dry-run flag set, the checks passed and at least one input found, the
  run performs the lookup, the walk and the announcements (which report the number of
  files and of groups and the directories it would use), prints the dry-run line and
  returns normally; no effect of the run changes the file system.
\<close>

theorem dry_run_writes_nothing:
  assumes "preflight_ok E A cli" and "iter_dngs E (expanduser_resolve E (arg_path A)) \<noteq> []"
    and "arg_dry_run A"
  shows "main E A = (preamble E A @ [Eprint (lit ''Dry run only, no files will be written.'')], None)
       \<and> filter is_mutation (fst (main E A)) = []"
  by (simp add: main_dry_run [OF assms] preamble_quiet)


lemma is_dangerous_directory_iff:
  "is_dangerous_directory E p \<longleftrightarrow>
     path_resolve E p \<in> dangerous \<or> home_resolved E = Some (path_resolve E p)"
  by (auto simp: is_dangerous_directory_def Let_def split: option.splits)

lemma refusal_head: "\<exists>m. refusal d = 82 # m"
  by (simp add: refusal_def lit_def)

lemma failure_message_head: "\<exists>m. failure_message f err = 100 # m"
  by (simp add: failure_message_def lit_def)

lemma refusal_not_failure: "refusal d \<noteq> failure_message f err"
  by (simp add: refusal_def failure_message_def lit_def)

lemma main_job_outcome:
  assumes "snd (main_job E A cli d dngs G ts jn jd imd evs) = Some ex"
  shows "ex = ValueError \<or> (\<exists>f err. ex = SystemExit (failure_message f err))"
proof -
  obtain st r where
    L: "export_loop_groups E A cli imd G
          \<lparr>export_index = 0, exported = [], events = evs @ [Mkdir imd]\<rparr> = (st, r)"
    by (cases "export_loop_groups E A cli imd G
          \<lparr>export_index = 0, exported = [], events = evs @ [Mkdir imd]\<rparr>")
  show ?thesis
  proof (cases r)
    case (Some ex')
    from export_loop_groups_events_fail [OF L [unfolded Some]]
    have "\<exists>f err. ex' = SystemExit (failure_message f err)" by blast
    moreover from main_job_loop_fail [OF L [unfolded Some], of d dngs ts jn jd] assms
    have "ex = ex'" by simp
    ultimately show ?thesis by blast
  next
    case None
    let ?z = "zip_job E jd (joinpath (joinpath d (arg_out A)) (jn @ lit ''_'' @ ts @ lit ''.zip''))"
    obtain zevs zr where z: "?z = (zevs, zr)" by (cases ?z)
    show ?thesis
    proof (cases zr)
      case (Inl zex)
      from zip_job_fail [OF z [unfolded Inl]] have "zex = ValueError" by simp
      with assms L None z Inl show ?thesis
        by (auto simp: main_job_def Let_def split: if_splits)
    next
      case (Inr zp)
      with assms L None z show ?thesis
        by (auto simp: main_job_def Let_def split: if_splits)
    qed
  qed
qed

lemma main_not_refused:
  assumes "path_exists E (expanduser_resolve E (arg_path A))"
    and "path_is_dir E (expanduser_resolve E (arg_path A))"
    and "\<not> is_dangerous_directory E (expanduser_resolve E (arg_path A))"
  shows "snd (main E A) \<noteq> Some (SystemExit (refusal d))"
proof -
  from refusal_head [of d] obtain m where m: "refusal d = 82 # m" ..
  from which_or_die_cases [of E "lit ''darktable-cli''"] show ?thesis
  proof (elim disjE exE)
    fix m' assume "which_or_die E (lit ''darktable-cli'') = Inl (SystemExit (77 # m'))"
    from main_no_tool [OF assms this] show ?thesis by (simp add: m)
  next
    fix cli assume "which_or_die E (lit ''darktable-cli'') = Inr cli"
    with assms have p: "preflight_ok E A cli" by (simp add: preflight_ok_def)
    show ?thesis
    proof (cases "iter_dngs E (expanduser_resolve E (arg_path A)) = []")
      case True
      from main_no_inputs [OF p True] show ?thesis by (simp add: m lit_def)
    next
      case False
      show ?thesis
      proof (cases "arg_dry_run A")
        case True
        from main_dry_run [OF p False True] show ?thesis by simp
      next
        case dry: False
        show ?thesis
        proof
          assume "snd (main E A) = Some (SystemExit (refusal d))"
          from main_job_outcome [OF this [unfolded main_runs_job [OF p False dry]]]
          show False by (auto simp: refusal_not_failure)
        qed
      qed
    qed
  qed
qed

text \<open>
  Claim C8. For every dataset path that is a directory, the run ends with the refusal of
  the safety check exactly when the resolved path is one of the five fixed locations
  \<open>/\<close>, \<open>/System\<close>, \<open>/Library\<close>, \<open>/Applications\<close>, \<open>/Users\<close> or is the
  resolved home directory itself; and then the run has no effect at all: no walk and no
  change of the file system.
\<close>

theorem dangerous_directory_rejected:
  assumes "path_exists E (expanduser_resolve E (arg_path A))"
    and "path_is_dir E (expanduser_resolve E (arg_path A))"
  shows "(snd (main E A) = Some (SystemExit (refusal (expanduser_resolve E (arg_path A)))))
          = (path_resolve E (expanduser_resolve E (arg_path A)) \<in> dangerous \<or>
             home_resolved E = Some (path_resolve E (expanduser_resolve E (arg_path A))))
       \<and> (path_resolve E (expanduser_resolve E (arg_path A)) \<in> dangerous \<or>
          home_resolved E = Some (path_resolve E (expanduser_resolve E (arg_path A)))
          \<longrightarrow> fst (main E A) = [])
       \<and> dangerous = {[], [lit ''System''], [lit ''Library''], [lit ''Applications''],
                      [lit ''Users'']}"
proof (cases "is_dangerous_directory E (expanduser_resolve E (arg_path A))")
  case True
  from main_dangerous [OF assms True] True show ?thesis
    by (simp add: is_dangerous_directory_iff dangerous_def)
next
  case False
  from main_not_refused [OF assms False, of "expanduser_resolve E (arg_path A)"] False
  show ?thesis by (simp add: is_dangerous_directory_iff dangerous_def)
qed

lemma main_success_preflight:
  assumes "snd (main E A) = None"
  shows "\<exists>cli. preflight_ok E A cli \<and> iter_dngs E (expanduser_resolve E (arg_path A)) \<noteq> []"
proof -
  let ?d = "expanduser_resolve E (arg_path A)"
  have 1: "path_exists E ?d \<and> path_is_dir E ?d"
    using main_not_dir [of E A] assms by fastforce
  have 2: "\<not> is_dangerous_directory E ?d"
    using main_dangerous [of E A] 1 assms by fastforce
  from which_or_die_cases [of E "lit ''darktable-cli''"] show ?thesis
  proof (elim disjE exE)
    fix m assume "which_or_die E (lit ''darktable-cli'') = Inl (SystemExit (77 # m))"
    from main_no_tool [OF _ _ 2 this] 1 assms show ?thesis by simp
  next
    fix cli assume "which_or_die E (lit ''darktable-cli'') = Inr cli"
    with 1 2 have p: "preflight_ok E A cli" by (simp add: preflight_ok_def)
    from main_no_inputs [OF p] assms have "iter_dngs E ?d \<noteq> []" by fastforce
    with p show ?thesis by blast
  qed
qed

lemma length_groups_files: "length (concat (map snd (group_by_parent_dir dngs))) = length dngs"
proof -
  have "length (concat (map snd (group_by_parent_dir dngs)))
          = size (mset (concat (map snd (group_by_parent_dir dngs))))" by simp
  also have "\<dots> = size (mset dngs)" by (simp only: group_mset)
  finally show ?thesis by simp
qed

lemma main_artifacts:
  assumes "snd (main E A) = None" and "\<not> arg_dry_run A"
  shows "artifacts (fst (main E A)) =
           replicate (length (iter_dngs E (expanduser_resolve E (arg_path A)))) ImageFile @
           [MetadataFile, ManifestFile] @ (if arg_zip A then [ArchiveFile] else [])"
proof -
  from main_success_preflight [OF assms(1)] obtain cli where
    p: "preflight_ok E A cli" and n: "iter_dngs E (expanduser_resolve E (arg_path A)) \<noteq> []"
    by blast
  note m = main_runs_job [OF p n assms(2)]
  from assms(1) have "main E A = (fst (main E A), None)" by (metis prod.collapse)
  from main_job_artifacts [OF this [unfolded m]] show ?thesis
    by (simp add: m preamble_artifacts length_groups_files)
qed

text \<open>
  Claim C2, as the code has it. In every run that is not a dry run and ends normally, the
  artifacts are produced in this order: one image for each discovered file, then the
  metadata record \<open>job.json\<close>, then the manifest, and last, when the archive flag is
  set, the archive.
\<close>

theorem artifact_order:
  assumes "snd (main E A) = None" and "\<not> arg_dry_run A"
  shows "artifacts (fst (main E A)) =
           replicate (length (iter_dngs E (expanduser_resolve E (arg_path A)))) ImageFile @
           [MetadataFile, ManifestFile] @ (if arg_zip A then [ArchiveFile] else [])"
  using assms by (rule main_artifacts)


lemma announce_run_ok:
  "list_all (run_ok E) (announce A d dngs G jd imd) \<and> \<not> list_ex is_removal (announce A d dngs G jd imd)"
  by (simp add: announce_def split: option.splits)

lemma preamble_run_ok:
  "list_all (run_ok E) (preamble E A) \<and> \<not> list_ex is_removal (preamble E A)"
  using announce_run_ok by (simp add: preamble_def)

lemma run_ok_member:
  "list_all (run_ok E) tr \<Longrightarrow> Run c \<in> set tr \<Longrightarrow> subprocess_run E c = Completed"
  by (induction tr) auto

lemma set_groups_files: "set (concat (map snd (group_by_parent_dir dngs))) = set dngs"
proof -
  have "set_mset (mset (concat (map snd (group_by_parent_dir dngs)))) = set_mset (mset dngs)"
    by (simp only: group_mset)
  then show ?thesis by (simp only: set_mset_mset)
qed

lemma main_trace_cases:
  "list_all (run_ok E) (fst (main E A))
   \<or> (\<exists>tr' cli f out err.
         fst (main E A) =
           tr' @ [Run (darktable_cmd cli f out (arg_style A) (arg_quality A) (arg_max_long_edge A))]
       \<and> list_all (run_ok E) tr'
       \<and> \<not> list_ex is_removal (fst (main E A))
       \<and> f \<in> set (iter_dngs E (expanduser_resolve E (arg_path A)))
       \<and> subprocess_run E (darktable_cmd cli f out (arg_style A) (arg_quality A)
             (arg_max_long_edge A)) = CalledProcessError err
       \<and> snd (main E A) = Some (SystemExit (failure_message f err)))"
proof -
  let ?d = "expanduser_resolve E (arg_path A)"
  show ?thesis
  proof (cases "path_exists E ?d \<and> path_is_dir E ?d")
    case False
    then have "main E A = ([], Some (SystemExit (lit ''Not a directory: '' @ str_of_path ?d)))"
      using main_not_dir [of E A] by blast
    then show ?thesis by simp
  next
    case dir: True
    show ?thesis
    proof (cases "is_dangerous_directory E ?d")
      case True
      with dir main_dangerous [of E A] show ?thesis by simp
    next
      case safe: False
      from which_or_die_cases [of E "lit ''darktable-cli''"] show ?thesis
      proof (elim disjE exE)
        fix m assume "which_or_die E (lit ''darktable-cli'') = Inl (SystemExit (77 # m))"
        from main_no_tool [OF _ _ safe this] dir show ?thesis by simp
      next
        fix cli assume "which_or_die E (lit ''darktable-cli'') = Inr cli"
        with dir safe have p: "preflight_ok E A cli" by (simp add: preflight_ok_def)
        show ?thesis
        proof (cases "iter_dngs E ?d = []")
          case True
          from main_no_inputs [OF p True] show ?thesis by simp
        next
          case False
          show ?thesis
          proof (cases "arg_dry_run A")
            case True
            from main_dry_run [OF p False True] preamble_run_ok [of E A] show ?thesis by simp
          next
            case dry: False
            note m = main_runs_job [OF p False dry]
            from preamble_run_ok [of E A]
            have a: "list_all (run_ok E) (preamble E A)" and b: "\<not> list_ex is_removal (preamble E A)"
              by simp_all
            from main_job_trace [OF a b, of A cli ?d "iter_dngs E ?d"
                "group_by_parent_dir (iter_dngs E ?d)" "time_strftime E" "job_name_of E A"
                "job_dir_of E A" "images_dir_of E A"]
            show ?thesis unfolding m set_groups_files by blast
          qed
        qed
      qed
    qed
  qed
qed

text \<open>
  Claim C6. If a converter process of a run exits with a non-zero status, then that
  process is the last effect of the run (no further file is exported and nothing is
  written after it), its input is one of the discovered files, the run ends with the
  error \<open>darktable-cli failed on: \<close> followed by the path of that input, a newline and
  the captured error output, every earlier conversion of the run succeeded, and no effect
  of the run removes a file.
\<close>

theorem converter_failure_is_fatal:
  assumes "Run c \<in> set (fst (main E A))" and "subprocess_run E c = CalledProcessError err"
  shows "\<exists>tr cli f out.
           fst (main E A) = tr @ [Run c]
         \<and> c = darktable_cmd cli f out (arg_style A) (arg_quality A) (arg_max_long_edge A)
         \<and> f \<in> set (iter_dngs E (expanduser_resolve E (arg_path A)))
         \<and> snd (main E A) =
             Some (SystemExit (lit ''darktable-cli failed on: '' @ str_of_path f @ [10] @
                     stderr_text err))
         \<and> list_all (run_ok E) tr
         \<and> \<not> list_ex is_removal (fst (main E A))"
proof -
  from main_trace_cases [of E A] show ?thesis
  proof
    assume "list_all (run_ok E) (fst (main E A))"
    from run_ok_member [OF this assms(1)] assms(2) show ?thesis by simp
  next
    assume "\<exists>tr' cli f out err.
         fst (main E A) =
           tr' @ [Run (darktable_cmd cli f out (arg_style A) (arg_quality A) (arg_max_long_edge A))]
       \<and> list_all (run_ok E) tr'
       \<and> \<not> list_ex is_removal (fst (main E A))
       \<and> f \<in> set (iter_dngs E (expanduser_resolve E (arg_path A)))
       \<and> subprocess_run E (darktable_cmd cli f out (arg_style A) (arg_quality A)
             (arg_max_long_edge A)) = CalledProcessError err
       \<and> snd (main E A) = Some (SystemExit (failure_message f err))"
    then obtain tr' cli f out err' where
      t: "fst (main E A) =
           tr' @ [Run (darktable_cmd cli f out (arg_style A) (arg_quality A) (arg_max_long_edge A))]"
      and o: "list_all (run_ok E) tr'" and r: "\<not> list_ex is_removal (fst (main E A))"
      and f: "f \<in> set (iter_dngs E (expanduser_resolve E (arg_path A)))"
      and e: "subprocess_run E (darktable_cmd cli f out (arg_style A) (arg_quality A)
             (arg_max_long_edge A)) = CalledProcessError err'"
      and s: "snd (main E A) = Some (SystemExit (failure_message f err'))" by blast
    from assms(1) t have "Run c \<in> set tr' \<or>
        c = darktable_cmd cli f out (arg_style A) (arg_quality A) (arg_max_long_edge A)" by auto
    then have c: "c = darktable_cmd cli f out (arg_style A) (arg_quality A) (arg_max_long_edge A)"
      using run_ok_member [OF o] assms(2) by auto
    with e assms(2) have "err' = err" by simp
    with t o r f s c show ?thesis by (auto simp: failure_message_def)
  qed
qed


lemma sample_dir: "components (lit ''/d'') = [lit ''d'']"
  by (simp add: components_def lit_def)

lemma sample_home: "components (lit ''/home/u'') = [lit ''home'', lit ''u'']"
  by (simp add: components_def lit_def)

lemma sample_not_dangerous: "[lit ''d''] \<notin> dangerous"
  by (simp add: dangerous_def lit_def)

lemma sample_which: "which_or_die (sample_env files run) (lit ''darktable-cli'') = Inr sample_cli"
  by (simp add: which_or_die_def sample_env_def sample_cli_def lit_def)

lemma sample_preflight:
  assumes "arg_path A = lit ''/d''" and "[lit ''d''] \<notin> set files"
  shows "preflight_ok (sample_env files run) A sample_cli"
  using assms sample_not_dangerous
  by (simp add: preflight_ok_def sample_which is_dangerous_directory_iff)
     (simp add: sample_env_def sample_dir)

lemma two_takes_no_root: "[lit ''d''] \<notin> set two_takes"
  by (simp add: two_takes_def)

lemma sample_args_simps:
  "arg_path sample_args = lit ''/d''" "\<not> arg_dry_run sample_args" "\<not> arg_zip sample_args"
  "arg_style sample_args = None" "arg_max_long_edge sample_args = None"
  "arg_quality sample_args = 95" "arg_job_name sample_args = None"
  "arg_out sample_args = lit ''_splatpack''"
  by (simp_all add: sample_args_def)

lemma sample_resolved: "expanduser_resolve (sample_env files run) (lit ''/d'') = [lit ''d'']"
  by (simp add: sample_env_def sample_dir)


theorem no_inputs_is_fatal_witness:
  "preflight_ok (sample_env [] (\<lambda>c. Completed)) (sample_args\<lparr>arg_dry_run := True\<rparr>) sample_cli
   \<and> iter_dngs (sample_env [] (\<lambda>c. Completed)) [lit ''d''] = []
   \<and> arg_dry_run (sample_args\<lparr>arg_dry_run := True\<rparr>)
   \<and> main (sample_env [] (\<lambda>c. Completed)) (sample_args\<lparr>arg_dry_run := True\<rparr>) =
       ([Which (lit ''darktable-cli''), Rglob [lit ''d'']],
        Some (SystemExit (lit ''No DNG files found under: '' @ str_of_path [lit ''d''])))
   \<and> filter is_mutation
        (fst (main (sample_env [] (\<lambda>c. Completed)) (sample_args\<lparr>arg_dry_run := True\<rparr>))) = []"
proof -
  let ?E = "sample_env [] (\<lambda>c. Completed)" and ?A = "sample_args\<lparr>arg_dry_run := True\<rparr>"
  have a: "arg_path ?A = lit ''/d''" by (simp add: sample_args_def)
  have d: "expanduser_resolve ?E (arg_path ?A) = [lit ''d'']" by (simp only: a sample_resolved)
  have p: "preflight_ok ?E ?A sample_cli" by (rule sample_preflight [OF a]) simp
  have i: "iter_dngs ?E (expanduser_resolve ?E (arg_path ?A)) = []"
    by (simp add: iter_dngs_def sample_env_def)
  note t = no_inputs_is_fatal [OF p i, unfolded d]
  from t have m: "main ?E ?A = ([Which (lit ''darktable-cli''), Rglob [lit ''d'']],
        Some (SystemExit (lit ''No DNG files found under: '' @ str_of_path [lit ''d''])))"
    by (rule conjunct1)
  from t have f: "filter is_mutation (fst (main ?E ?A)) = []" by (rule conjunct2)
  have r: "arg_dry_run ?A" by simp
  from p i [unfolded d] r m f show ?thesis by blast
qed

theorem dry_run_writes_nothing_witness:
  "preflight_ok (sample_env two_takes (\<lambda>c. Completed)) (sample_args\<lparr>arg_dry_run := True\<rparr>) sample_cli
   \<and> iter_dngs (sample_env two_takes (\<lambda>c. Completed)) [lit ''d''] =
       [[lit ''d'', lit ''t1'', lit ''a.dng''], [lit ''d'', lit ''t1'', lit ''b.DNG''],
        [lit ''d'', lit ''t2'', lit ''c.dng'']]
   \<and> arg_dry_run (sample_args\<lparr>arg_dry_run := True\<rparr>)
   \<and> snd (main (sample_env two_takes (\<lambda>c. Completed)) (sample_args\<lparr>arg_dry_run := True\<rparr>)) = None
   \<and> filter is_mutation
        (fst (main (sample_env two_takes (\<lambda>c. Completed)) (sample_args\<lparr>arg_dry_run := True\<rparr>))) = []"
proof -
  let ?E = "sample_env two_takes (\<lambda>c. Completed)" and ?A = "sample_args\<lparr>arg_dry_run := True\<rparr>"
  have a: "arg_path ?A = lit ''/d''" by (simp add: sample_args_def)
  have d: "expanduser_resolve ?E (arg_path ?A) = [lit ''d'']" by (simp only: a sample_resolved)
  have p: "preflight_ok ?E ?A sample_cli" by (rule sample_preflight [OF a two_takes_no_root])
  have i: "iter_dngs ?E (expanduser_resolve ?E (arg_path ?A)) \<noteq> []"
    by (simp only: d iter_two_takes) simp
  have r: "arg_dry_run ?A" by simp
  note t = dry_run_writes_nothing [OF p i r]
  from t have s: "snd (main ?E ?A) = None" by simp
  from t have f: "filter is_mutation (fst (main ?E ?A)) = []" by (rule conjunct2)
  from p r s f iter_two_takes [of "\<lambda>c. Completed"] show ?thesis by blast
qed

theorem directory_checks_precede_tool_lookup_witness:
  "\<not> path_is_dir ((sample_env two_takes (\<lambda>c. Completed))
          \<lparr>path_is_dir := (\<lambda>p. False), shutil_which := (\<lambda>t. None)\<rparr>) [lit ''d'']
   \<and> shutil_which ((sample_env two_takes (\<lambda>c. Completed))
          \<lparr>path_is_dir := (\<lambda>p. False), shutil_which := (\<lambda>t. None)\<rparr>) (lit ''darktable-cli'') = None
   \<and> main ((sample_env two_takes (\<lambda>c. Completed))
          \<lparr>path_is_dir := (\<lambda>p. False), shutil_which := (\<lambda>t. None)\<rparr>) sample_args =
       ([], Some (SystemExit (lit ''Not a directory: '' @ str_of_path [lit ''d''])))
   \<and> path_exists ((sample_env two_takes (\<lambda>c. Completed))\<lparr>shutil_which := (\<lambda>t. None)\<rparr>)
        [lit ''home'', lit ''u'']
   \<and> path_is_dir ((sample_env two_takes (\<lambda>c. Completed))\<lparr>shutil_which := (\<lambda>t. None)\<rparr>)
        [lit ''home'', lit ''u'']
   \<and> is_dangerous_directory ((sample_env two_takes (\<lambda>c. Completed))\<lparr>shutil_which := (\<lambda>t. None)\<rparr>)
        [lit ''home'', lit ''u'']
   \<and> main ((sample_env two_takes (\<lambda>c. Completed))\<lparr>shutil_which := (\<lambda>t. None)\<rparr>)
        (sample_args\<lparr>arg_path := lit ''/home/u''\<rparr>) =
       ([], Some (SystemExit (refusal [lit ''home'', lit ''u''])))
   \<and> path_exists (sample_env two_takes (\<lambda>c. Completed)) [lit ''d'']
   \<and> path_is_dir (sample_env two_takes (\<lambda>c. Completed)) [lit ''d'']
   \<and> \<not> is_dangerous_directory (sample_env two_takes (\<lambda>c. Completed)) [lit ''d'']
   \<and> hd (fst (main (sample_env two_takes (\<lambda>c. Completed)) sample_args)) = Which (lit ''darktable-cli'')"
proof -
  let ?E = "sample_env two_takes (\<lambda>c. Completed)"
  let ?Ea = "?E\<lparr>path_is_dir := (\<lambda>p. False), shutil_which := (\<lambda>t. None)\<rparr>"
  let ?Eb = "?E\<lparr>shutil_which := (\<lambda>t. None)\<rparr>"
  let ?Ab = "sample_args\<lparr>arg_path := lit ''/home/u''\<rparr>"
  have da: "expanduser_resolve ?Ea (arg_path sample_args) = [lit ''d'']"
    by (simp add: sample_env_def sample_args_def sample_dir)
  have db: "expanduser_resolve ?Eb (arg_path ?Ab) = [lit ''home'', lit ''u'']"
    by (simp add: sample_env_def sample_home)
  have d: "expanduser_resolve ?E (arg_path sample_args) = [lit ''d'']"
    by (simp add: sample_args_def sample_resolved)
  have a1: "\<not> path_is_dir ?Ea [lit ''d'']" by simp
  have a2: "shutil_which ?Ea (lit ''darktable-cli'') = None" by simp
  have b1: "path_exists ?Eb [lit ''home'', lit ''u'']" by (simp add: sample_env_def)
  have b2: "path_is_dir ?Eb [lit ''home'', lit ''u'']" by (simp add: sample_env_def two_takes_def)
  have b3: "is_dangerous_directory ?Eb [lit ''home'', lit ''u'']"
    by (simp add: is_dangerous_directory_iff sample_env_def)
  have c1: "path_exists ?E [lit ''d'']" by (simp add: sample_env_def)
  have c2: "path_is_dir ?E [lit ''d'']" using two_takes_no_root by (simp add: sample_env_def)
  have c3: "\<not> is_dangerous_directory ?E [lit ''d'']"
    using sample_not_dangerous by (simp add: is_dangerous_directory_iff) (simp add: sample_env_def)
  note ta = directory_checks_precede_tool_lookup [of ?Ea sample_args, unfolded da]
    and tb = directory_checks_precede_tool_lookup [of ?Eb ?Ab, unfolded db]
    and tc = directory_checks_precede_tool_lookup [of ?E sample_args, unfolded d]
  from ta a1 have ra: "main ?Ea sample_args =
       ([], Some (SystemExit (lit ''Not a directory: '' @ str_of_path [lit ''d''])))" by blast
  from tb b1 b2 b3 have rb: "main ?Eb ?Ab = ([], Some (SystemExit (refusal [lit ''home'', lit ''u''])))"
    by blast
  from tc c1 c2 c3 obtain evs where "fst (main ?E sample_args) = Which (lit ''darktable-cli'') # evs"
    by blast
  then have rc: "hd (fst (main ?E sample_args)) = Which (lit ''darktable-cli'')" by simp
  from a1 a2 ra b1 b2 b3 rb c1 c2 c3 rc show ?thesis by blast
qed

theorem dangerous_directory_rejected_witness:
  "path_exists (sample_env two_takes (\<lambda>c. Completed)) [lit ''home'', lit ''u'']
   \<and> path_is_dir (sample_env two_takes (\<lambda>c. Completed)) [lit ''home'', lit ''u'']
   \<and> home_resolved (sample_env two_takes (\<lambda>c. Completed)) =
        Some (path_resolve (sample_env two_takes (\<lambda>c. Completed)) [lit ''home'', lit ''u''])
   \<and> snd (main (sample_env two_takes (\<lambda>c. Completed)) (sample_args\<lparr>arg_path := lit ''/home/u''\<rparr>)) =
        Some (SystemExit (refusal [lit ''home'', lit ''u'']))
   \<and> fst (main (sample_env two_takes (\<lambda>c. Completed)) (sample_args\<lparr>arg_path := lit ''/home/u''\<rparr>)) = []
   \<and> path_exists (sample_env two_takes (\<lambda>c. Completed)) [lit ''d'']
   \<and> path_is_dir (sample_env two_takes (\<lambda>c. Completed)) [lit ''d'']
   \<and> snd (main (sample_env two_takes (\<lambda>c. Completed)) sample_args) \<noteq>
        Some (SystemExit (refusal [lit ''d'']))"
proof -
  let ?E = "sample_env two_takes (\<lambda>c. Completed)"
  let ?Ab = "sample_args\<lparr>arg_path := lit ''/home/u''\<rparr>"
  have db: "expanduser_resolve ?E (arg_path ?Ab) = [lit ''home'', lit ''u'']"
    by (simp add: sample_env_def sample_home)
  have d: "expanduser_resolve ?E (arg_path sample_args) = [lit ''d'']"
    by (simp add: sample_args_def sample_resolved)
  have b1: "path_exists ?E [lit ''home'', lit ''u'']" by (simp add: sample_env_def)
  have b2: "path_is_dir ?E [lit ''home'', lit ''u'']" by (simp add: sample_env_def two_takes_def)
  have b3: "home_resolved ?E = Some (path_resolve ?E [lit ''home'', lit ''u''])"
    by (simp add: sample_env_def)
  have c1: "path_exists ?E [lit ''d'']" by (simp add: sample_env_def)
  have c2: "path_is_dir ?E [lit ''d'']" using two_takes_no_root by (simp add: sample_env_def)
  have c3: "path_resolve ?E [lit ''d''] \<notin> dangerous" "home_resolved ?E \<noteq> Some (path_resolve ?E [lit ''d''])"
    using sample_not_dangerous by (simp_all add: sample_env_def)
  note tb = dangerous_directory_rejected [of ?E ?Ab, unfolded db, OF b1 b2]
    and tc = dangerous_directory_rejected [of ?E sample_args, unfolded d, OF c1 c2]
  from tb b3 have rb: "snd (main ?E ?Ab) = Some (SystemExit (refusal [lit ''home'', lit ''u'']))"
    "fst (main ?E ?Ab) = []" by blast+
  from tc c3 have rc: "snd (main ?E sample_args) \<noteq> Some (SystemExit (refusal [lit ''d'']))" by blast
  from b1 b2 b3 rb c1 c2 rc show ?thesis by blast
qed


lemma main_job_success:
  assumes "\<forall>c. subprocess_run E c = Completed"
    and "arg_zip A \<longrightarrow> (\<exists>zevs zp. zip_job E jd
            (joinpath (joinpath d (arg_out A)) (jn @ lit ''_'' @ ts @ lit ''.zip'')) = (zevs, Inr zp))"
  shows "snd (main_job E A cli d dngs G ts jn jd imd evs) = None"
proof -
  from export_loop_groups_all_ok [OF assms(1), of A cli imd G
      "\<lparr>export_index = 0, exported = [], events = evs @ [Mkdir imd]\<rparr>"]
  obtain st where L: "export_loop_groups E A cli imd G
      \<lparr>export_index = 0, exported = [], events = evs @ [Mkdir imd]\<rparr> = (st, None)"
    by (metis prod.collapse)
  show ?thesis
  proof (cases "arg_zip A")
    case False
    with L show ?thesis by (simp add: main_job_def Let_def)
  next
    case True
    with assms(2) obtain zevs zp where "zip_job E jd
            (joinpath (joinpath d (arg_out A)) (jn @ lit ''_'' @ ts @ lit ''.zip'')) = (zevs, Inr zp)"
      by blast
    with L True show ?thesis by (simp add: main_job_def Let_def)
  qed
qed

lemma sample_job_name:
  "arg_job_name A = None \<Longrightarrow> arg_path A = lit ''/d'' \<Longrightarrow>
     job_name_of (sample_env files run) A = lit ''d''"
  by (simp add: job_name_of_def default_job_name_def sample_resolved)
     (simp add: sample_env_def name_def lit_chars safe_name_t)

lemma sample_zip_path:
  "joinpath (joinpath [lit ''d''] (lit ''_splatpack''))
     (lit ''d'' @ lit ''_'' @ lit ''20260113_165501'' @ lit ''.zip'') =
   [lit ''d'', lit ''_splatpack'', lit ''d_20260113_165501.zip'']"
  by (simp add: joinpath_def components_def lit_def)

lemma sample_zip_job:
  "\<exists>zevs zp. zip_job (sample_env files run) jd
      [lit ''d'', lit ''_splatpack'', lit ''d_20260113_165501.zip''] = (zevs, Inr zp)"
  by (simp add: zip_job_def with_suffix_def name_def suffix_def Let_def sample_env_def
        ascii_lower_def lit_def)

lemma sample_success:
  assumes "arg_path A = lit ''/d''" and "arg_job_name A = None" and "arg_out A = lit ''_splatpack''"
    and "\<not> arg_dry_run A"
  shows "snd (main (sample_env two_takes (\<lambda>c. Completed)) A) = None"
proof -
  let ?E = "sample_env two_takes (\<lambda>c. Completed)"
  have d: "expanduser_resolve ?E (arg_path A) = [lit ''d'']" by (simp only: assms(1) sample_resolved)
  have p: "preflight_ok ?E A sample_cli" by (rule sample_preflight [OF assms(1) two_takes_no_root])
  have i: "iter_dngs ?E (expanduser_resolve ?E (arg_path A)) \<noteq> []"
    by (simp only: d iter_two_takes) simp
  have c: "\<forall>c. subprocess_run ?E c = Completed" by (simp add: sample_env_def)
  have t: "time_strftime ?E = lit ''20260113_165501''" by (simp add: sample_env_def)
  show ?thesis
    unfolding main_runs_job [OF p i assms(4)]
    by (rule main_job_success [OF c])
       (simp only: d assms(3) t sample_job_name [OF assms(2,1)] sample_zip_path sample_zip_job
          simp_thms)
qed

theorem artifact_order_witness:
  "snd (main (sample_env two_takes (\<lambda>c. Completed)) (sample_args\<lparr>arg_zip := True\<rparr>)) = None
   \<and> \<not> arg_dry_run (sample_args\<lparr>arg_zip := True\<rparr>)
   \<and> artifacts (fst (main (sample_env two_takes (\<lambda>c. Completed)) (sample_args\<lparr>arg_zip := True\<rparr>))) =
       [ImageFile, ImageFile, ImageFile, MetadataFile, ManifestFile, ArchiveFile]"
proof -
  let ?E = "sample_env two_takes (\<lambda>c. Completed)" and ?A = "sample_args\<lparr>arg_zip := True\<rparr>"
  have s: "snd (main ?E ?A) = None"
    by (rule sample_success) (simp_all add: sample_args_def)
  have n: "\<not> arg_dry_run ?A" by (simp add: sample_args_def)
  have d: "expanduser_resolve ?E (arg_path ?A) = [lit ''d'']"
    by (simp add: sample_args_def sample_resolved)
  from artifact_order [OF s n] have "artifacts (fst (main ?E ?A)) =
       [ImageFile, ImageFile, ImageFile, MetadataFile, ManifestFile, ArchiveFile]"
    unfolding d iter_two_takes by (simp add: numeral_3_eq_3)
  with s n show ?thesis by blast
qed

text \<open>
  The order the specification gives, manifest before metadata, is not the order of the
  code: on the sample of three frames the metadata record is written before the manifest.
\<close>

theorem metadata_before_manifest_counterexample:
  "snd (main (sample_env two_takes (\<lambda>c. Completed)) sample_args) = None
   \<and> \<not> arg_dry_run sample_args
   \<and> artifacts (fst (main (sample_env two_takes (\<lambda>c. Completed)) sample_args)) =
       [ImageFile, ImageFile, ImageFile, MetadataFile, ManifestFile]
   \<and> artifacts (fst (main (sample_env two_takes (\<lambda>c. Completed)) sample_args)) \<noteq>
       [ImageFile, ImageFile, ImageFile, ManifestFile, MetadataFile]"
proof -
  let ?E = "sample_env two_takes (\<lambda>c. Completed)"
  have s: "snd (main ?E sample_args) = None"
    by (rule sample_success) (simp_all add: sample_args_def)
  have n: "\<not> arg_dry_run sample_args" by (simp add: sample_args_def)
  have d: "expanduser_resolve ?E (arg_path sample_args) = [lit ''d'']"
    by (simp add: sample_args_def sample_resolved)
  from main_artifacts [OF s n] have a: "artifacts (fst (main ?E sample_args)) =
       [ImageFile, ImageFile, ImageFile, MetadataFile, ManifestFile]"
    unfolding d iter_two_takes by (simp add: numeral_3_eq_3 sample_args_def)
  then have "artifacts (fst (main ?E sample_args)) \<noteq>
       [ImageFile, ImageFile, ImageFile, ManifestFile, MetadataFile]" by simp
  with s n a show ?thesis by blast
qed


lemma darktable_cmd_input: "darktable_cmd cli f out s q m ! 1 = str_of_path f"
  by (simp add: darktable_cmd_def Let_def split: option.splits)

lemma sample_inputs:
  "str_of_path [lit ''d'', lit ''t1'', lit ''a.dng''] = lit ''/d/t1/a.dng''"
  "str_of_path [lit ''d'', lit ''t1'', lit ''b.DNG''] = lit ''/d/t1/b.DNG''"
  "lit ''/d/t1/a.dng'' \<noteq> lit ''/d/t1/b.DNG''"
  by (simp_all add: str_of_path_def lit_def)

lemma failing_run_sample:
  "failing_run (darktable_cmd cli [lit ''d'', lit ''t1'', lit ''a.dng''] out s q m) = Completed"
  "failing_run (darktable_cmd cli [lit ''d'', lit ''t1'', lit ''b.DNG''] out s q m) =
     CalledProcessError (Some (lit ''bad frame''))"
  by (simp_all add: darktable_cmd_def Let_def sample_inputs split: option.splits)

lemma sample_loop_fails:
  "export_loop_groups (sample_env two_takes failing_run) sample_args sample_cli imd
     (group_by_parent_dir sorted_takes) \<lparr>export_index = 0, exported = [], events = evs\<rparr> =
   (\<lparr>export_index = 2,
     exported = [joinpath imd (lit ''t1'' @ lit ''_'' @ format_06d 1 @ lit ''.jpg'')],
     events = evs @
       [Run (darktable_cmd sample_cli [lit ''d'', lit ''t1'', lit ''a.dng'']
               (joinpath imd (lit ''t1'' @ lit ''_'' @ format_06d 1 @ lit ''.jpg''))
               None 95 None),
        Run (darktable_cmd sample_cli [lit ''d'', lit ''t1'', lit ''b.DNG'']
               (joinpath imd (lit ''t1'' @ lit ''_'' @ format_06d 2 @ lit ''.jpg''))
               None 95 None)]\<rparr>,
    Some (SystemExit (lit ''darktable-cli failed on: '' @ lit ''/d/t1/b.DNG'' @ [10] @
            lit ''bad frame'')))"
proof -
  have n: "safe_name (str_isalnum (sample_env two_takes failing_run)) (name [lit ''d'', lit ''t1''])
            = lit ''t1''"
    by (simp add: sample_env_def name_def lit_chars safe_name_t)
  have r: "subprocess_run (sample_env two_takes failing_run) = failing_run"
    by (simp add: sample_env_def)
  show ?thesis
    unfolding group_sorted_takes
    by (simp add: n r Let_def run_darktable_export_def sample_args_simps failing_run_sample
          stderr_text_def sample_inputs format_06d_small format_06d_Suc)
qed


theorem converter_failure_is_fatal_witness:
  "Run (darktable_cmd sample_cli [lit ''d'', lit ''t1'', lit ''b.DNG'']
          (joinpath (images_dir_of (sample_env two_takes failing_run) sample_args)
             (lit ''t1'' @ lit ''_'' @ format_06d 2 @ lit ''.jpg'')) None 95 None)
     \<in> set (fst (main (sample_env two_takes failing_run) sample_args))
   \<and> subprocess_run (sample_env two_takes failing_run)
        (darktable_cmd sample_cli [lit ''d'', lit ''t1'', lit ''b.DNG'']
          (joinpath (images_dir_of (sample_env two_takes failing_run) sample_args)
             (lit ''t1'' @ lit ''_'' @ format_06d 2 @ lit ''.jpg'')) None 95 None)
       = CalledProcessError (Some (lit ''bad frame''))
   \<and> snd (main (sample_env two_takes failing_run) sample_args) =
       Some (SystemExit (lit ''darktable-cli failed on: '' @ lit ''/d/t1/b.DNG'' @ [10] @
               lit ''bad frame''))
   \<and> last (fst (main (sample_env two_takes failing_run) sample_args)) =
       Run (darktable_cmd sample_cli [lit ''d'', lit ''t1'', lit ''b.DNG'']
          (joinpath (images_dir_of (sample_env two_takes failing_run) sample_args)
             (lit ''t1'' @ lit ''_'' @ format_06d 2 @ lit ''.jpg'')) None 95 None)
   \<and> \<not> list_ex is_removal (fst (main (sample_env two_takes failing_run) sample_args))"
proof -
  let ?E = "sample_env two_takes failing_run"
  let ?c = "darktable_cmd sample_cli [lit ''d'', lit ''t1'', lit ''b.DNG'']
          (joinpath (images_dir_of ?E sample_args)
             (lit ''t1'' @ lit ''_'' @ format_06d 2 @ lit ''.jpg'')) None 95 None"
  have d: "expanduser_resolve ?E (arg_path sample_args) = [lit ''d'']"
    by (simp only: sample_args_simps sample_resolved)
  have p: "preflight_ok ?E sample_args sample_cli"
    by (rule sample_preflight [OF sample_args_simps(1) two_takes_no_root])
  have i: "iter_dngs ?E (expanduser_resolve ?E (arg_path sample_args)) = sorted_takes"
    by (simp only: d iter_two_takes sorted_takes_def)
  then have ne: "iter_dngs ?E (expanduser_resolve ?E (arg_path sample_args)) \<noteq> []"
    by (simp add: sorted_takes_def)
  have m: "fst (main ?E sample_args) = preamble ?E sample_args @
      [Mkdir (images_dir_of ?E sample_args),
       Run (darktable_cmd sample_cli [lit ''d'', lit ''t1'', lit ''a.dng'']
               (joinpath (images_dir_of ?E sample_args)
                  (lit ''t1'' @ lit ''_'' @ format_06d 1 @ lit ''.jpg'')) None 95 None),
       Run ?c]"
    unfolding main_runs_job [OF p ne sample_args_simps(2)] i
    by (simp add: main_job_def sample_loop_fails)
  have h1: "Run ?c \<in> set (fst (main ?E sample_args))" by (simp add: m)
  have h2: "subprocess_run ?E ?c = CalledProcessError (Some (lit ''bad frame''))"
    by (simp add: sample_env_def failing_run_sample)
  from converter_failure_is_fatal [OF h1 h2] obtain tr cli f out where
    t: "fst (main ?E sample_args) = tr @ [Run ?c]"
    and c: "?c = darktable_cmd cli f out (arg_style sample_args) (arg_quality sample_args)
               (arg_max_long_edge sample_args)"
    and s: "snd (main ?E sample_args) =
             Some (SystemExit (lit ''darktable-cli failed on: '' @ str_of_path f @ [10] @
                     stderr_text (Some (lit ''bad frame''))))"
    and r: "\<not> list_ex is_removal (fst (main ?E sample_args))" by blast
  from c have "?c ! 1 = str_of_path f" by (simp only: darktable_cmd_input)
  then have "str_of_path f = lit ''/d/t1/b.DNG''"
    by (simp only: darktable_cmd_input sample_inputs)
  with s have s': "snd (main ?E sample_args) =
       Some (SystemExit (lit ''darktable-cli failed on: '' @ lit ''/d/t1/b.DNG'' @ [10] @
               lit ''bad frame''))" by (simp add: stderr_text_def)
  from t have l: "last (fst (main ?E sample_args)) = Run ?c" by simp
  from h1 h2 s' l r show ?thesis by blast
qed

end
